theory Spec2Isabelle
  imports
    Main
    "HOL-Library.Char_ord"
    "HOL-Library.List_Lexorder"
    "HOL-Library.Option_ord"
    "HOL-Library.Product_Lexorder"
begin

section \<open>Data model of the controller\<close>

text \<open>
  The controller of \<^verbatim>\<open>nxdrive/controller.py\<close> works on three tables of a relational
  store: server bindings, root bindings and pair states (\<^verbatim>\<open>LastKnownState\<close>).  A table
  is a list of rows, a nullable column is an \<open>option\<close>, and a Python exception is a value
  of \<open>error\<close>, returned as \<open>Inl\<close>.
\<close>

datatype error =
    InvalidArgument        \<comment> \<open>\<^verbatim>\<open>ValueError\<close> of \<^verbatim>\<open>_normalize_url\<close>\<close>
  | IllegalState           \<comment> \<open>\<^verbatim>\<open>ValueError\<close> of \<^verbatim>\<open>_pair_states_recursive\<close>\<close>
  | NotFound               \<comment> \<open>\<^verbatim>\<open>nxdrive.client.NotFound\<close>\<close>
  | Ambiguous              \<comment> \<open>\<^verbatim>\<open>RuntimeError\<close>: more than one binding for a path\<close>
  | AlreadyBound           \<comment> \<open>\<^verbatim>\<open>RuntimeError\<close>: already bound to another target\<close>
  | NotBound               \<comment> \<open>\<^verbatim>\<open>RuntimeError\<close>: folder is not bound\<close>
  | NoResultFound          \<comment> \<open>\<^verbatim>\<open>Query.one()\<close> on no row\<close>
  | MultipleResultsFound   \<comment> \<open>\<^verbatim>\<open>Query.one()\<close> on several rows\<close>
  | NetworkError           \<comment> \<open>any of \<^verbatim>\<open>POSSIBLE_NETWORK_ERROR_TYPES\<close>\<close>
  | Unauthorized           \<comment> \<open>\<^verbatim>\<open>nxdrive.client.Unauthorized\<close>\<close>
  | OSError                \<comment> \<open>a failing filesystem call\<close>
  | RecursionLimit         \<comment> \<open>the interpreter's recursion limit is reached\<close>
  | OtherError string      \<comment> \<open>any other exception of a collaborator\<close>

record ServerBinding =
  sb_local_folder :: string
  server_url :: string
  remote_user :: string
  remote_password :: "string option"
  remote_token :: "string option"

record RootBinding =
  local_root :: string
  remote_repo :: string
  remote_root :: string
  rb_local_folder :: string

record LastKnownState =
  local_folder :: string
  lks_local_root :: string
  path :: "string option"
  parent_path :: "string option"
  local_name :: "string option"
  remote_ref :: "string option"
  remote_parent_ref :: "string option"
  remote_name :: "string option"
  remote_path :: "string option"
  folderish :: bool
  local_state :: string
  remote_state :: string
  pair_state :: string
  last_sync_error_date :: "int option"

record store =
  servers :: "ServerBinding list"
  roots :: "RootBinding list"
  states :: "LastKnownState list"

text \<open>\<^verbatim>\<open>Query.one()\<close>: the only row, or one of two exceptions.\<close>

fun one :: "'a list \<Rightarrow> error + 'a" where
  "one [] = Inl NoResultFound"
| "one [x] = Inr x"
| "one (x # y # zs) = Inl MultipleResultsFound"

section \<open>URL normalization\<close>

text \<open>
  \<^verbatim>\<open>_normalize_url(url)\<close>: \<^verbatim>\<open>None\<close> and the empty string raise \<^verbatim>\<open>ValueError\<close>; a URL that
  does not end with a slash gets one.
\<close>

definition endswith_slash :: "string \<Rightarrow> bool" where
  "endswith_slash url = (url \<noteq> [] \<and> last url = CHR ''/'')"

fun normalize_url :: "string option \<Rightarrow> error + string" where
  "normalize_url None = Inl InvalidArgument"
| "normalize_url (Some url) =
     (if url = [] then Inl InvalidArgument
      else if \<not> endswith_slash url then Inr (url @ ''/'')
      else Inr url)"

section \<open>Path resolution\<close>





section \<open>Pending work\<close>

text \<open>
  \<^verbatim>\<open>list_pending(limit, local_folder, ignore_in_error)\<close>.  Dates are microseconds since
  the epoch, \<^verbatim>\<open>ignore_in_error\<close> is in seconds, \<open>now\<close> is what \<^verbatim>\<open>datetime.now()\<close>
  returns.  A comparison with a \<^verbatim>\<open>NULL\<close> column is not true in SQL, and \<^verbatim>\<open>NULL\<close> sorts
  before every value in ascending order, as \<open>None\<close> does here.
\<close>

definition recently_failed_filter :: "int \<Rightarrow> LastKnownState \<Rightarrow> bool" where
  "recently_failed_filter max_date s =
     (case last_sync_error_date s of None \<Rightarrow> True | Some d \<Rightarrow> d < max_date)"

definition pending_predicates ::
  "string option \<Rightarrow> int option \<Rightarrow> int \<Rightarrow> LastKnownState \<Rightarrow> bool" where
  "pending_predicates lf ignore_in_error now s =
     (pair_state s \<noteq> ''synchronized''
      \<and> (case lf of None \<Rightarrow> True | Some f \<Rightarrow> local_folder s = f)
      \<and> (case ignore_in_error of
            None \<Rightarrow> True
          | Some secs \<Rightarrow>
              (if secs > 0 then recently_failed_filter (now - secs * 1000000) s else True)))"

definition pending_key :: "LastKnownState \<Rightarrow> string option \<times> string option" where
  "pending_key s = (path s, remote_path s)"

definition list_pending ::
  "nat \<Rightarrow> string option \<Rightarrow> int option \<Rightarrow> int \<Rightarrow> store \<Rightarrow> LastKnownState list" where
  "list_pending limit lf ignore_in_error now st =
     take limit (sort_key pending_key
       (filter (pending_predicates lf ignore_in_error now) (states st)))"

text \<open>\<^verbatim>\<open>next_pending\<close>: the first pending pair state, or \<^verbatim>\<open>None\<close>.\<close>

definition next_pending :: "string option \<Rightarrow> int \<Rightarrow> store \<Rightarrow> LastKnownState option" where
  "next_pending lf now st =
     (let pending = list_pending 1 lf None now st
      in if length pending > 0 then Some (hd pending) else None)"

section \<open>Aggregated states of the descendants of a folder\<close>

text \<open>
  \<^verbatim>\<open>_pair_states_recursive(local_root, session, doc_pair)\<close>.  The selection of the
  children depends on which of \<^verbatim>\<open>path\<close> and \<^verbatim>\<open>remote_ref\<close> the pair state has; a pair
  state with neither raises \<^verbatim>\<open>ValueError\<close>.
\<close>

definition children_filter :: "LastKnownState \<Rightarrow> error + (LastKnownState \<Rightarrow> bool)" where
  "children_filter doc_pair =
     (case (path doc_pair, remote_ref doc_pair) of
        (Some p, Some r) \<Rightarrow>
          Inr (\<lambda>s. parent_path s = Some p \<or> remote_parent_ref s = Some r)
      | (Some p, None) \<Rightarrow> Inr (\<lambda>s. parent_path s = Some p)
      | (None, Some r) \<Rightarrow> Inr (\<lambda>s. remote_parent_ref s = Some r)
      | (None, None) \<Rightarrow> Inl IllegalState)"

definition children_key :: "LastKnownState \<Rightarrow> string option \<times> string option" where
  "children_key s = (local_name s, remote_name s)"

definition query_children ::
  "string \<Rightarrow> (LastKnownState \<Rightarrow> bool) \<Rightarrow> LastKnownState list \<Rightarrow> LastKnownState list" where
  "query_children lr f sts =
     sort_key children_key (filter (\<lambda>s. lks_local_root s = lr \<and> f s) sts)"

text \<open>
  The loop that summarizes the collected results.  Its \<^verbatim>\<open>break\<close> is a statement of the
  loop body, not of the \<^verbatim>\<open>if\<close>: the loop ends after the first entry of \<^verbatim>\<open>results\<close>.
\<close>

fun summarize :: "string \<Rightarrow> ('a \<times> string) list \<Rightarrow> string" where
  "summarize own [] = own"
| "summarize own ((_, sub_pair_state) # _) =
     (if sub_pair_state \<noteq> ''synchronized'' then ''children_modified'' else own)"

text \<open>The results of the recursive calls, up to the first one that raises.\<close>

fun collect :: "(error + 'a) list \<Rightarrow> error + 'a list" where
  "collect [] = Inr []"
| "collect (Inl e # _) = Inl e"
| "collect (Inr x # rs) = (case collect rs of Inl e \<Rightarrow> Inl e | Inr xs \<Rightarrow> Inr (x # xs))"

text \<open>
  The recursion follows the rows of the store, which may be cyclic; the first argument
  bounds its depth, as the interpreter's recursion limit does.
\<close>

fun pair_states_recursive ::
  "nat \<Rightarrow> string \<Rightarrow> LastKnownState list \<Rightarrow> LastKnownState
     \<Rightarrow> error + (LastKnownState \<times> string) list" where
  "pair_states_recursive 0 lr sts doc_pair = Inl RecursionLimit"
| "pair_states_recursive (Suc n) lr sts doc_pair =
     (if \<not> folderish doc_pair then Inr [(doc_pair, pair_state doc_pair)]
      else case children_filter doc_pair of
        Inl e \<Rightarrow> Inl e
      | Inr f \<Rightarrow>
          (case collect (map (pair_states_recursive n lr sts) (query_children lr f sts)) of
             Inl e \<Rightarrow> Inl e
           | Inr sub_results \<Rightarrow>
               (let results = concat sub_results
                in Inr ((doc_pair, summarize (pair_state doc_pair) results) # results))))"

text \<open>
  \<^verbatim>\<open>get_server_binding(local_folder, raise_if_missing)\<close>.
\<close>

definition get_server_binding ::
  "(string \<Rightarrow> string) \<Rightarrow> string \<Rightarrow> bool \<Rightarrow> store \<Rightarrow> error + ServerBinding option" where
  "get_server_binding normalized_path lf raise_if_missing st =
     (case one (filter (\<lambda>sb. sb_local_folder sb = normalized_path lf) (servers st)) of
        Inr sb \<Rightarrow> Inr (Some sb)
      | Inl NoResultFound \<Rightarrow> (if raise_if_missing then Inl NotBound else Inr None)
      | Inl e \<Rightarrow> Inl e)"




section \<open>Binding and unbinding a server\<close>

text \<open>
  \<^verbatim>\<open>bind_server(local_folder, server_url, username, password)\<close>.  The collaborators are
  parameters: \<open>request_token url user password\<close> is what building the remote client and
  asking it for a token gives (a token, \<^verbatim>\<open>None\<close>, or an exception), \<open>makedirs folder\<close> is
  what creating the missing local folder gives.  An operation on the session returns what
  it raised, if anything, and the content of the session; it has committed when it
  raised nothing.
\<close>

definition update_credentials ::
  "string option \<Rightarrow> string option \<Rightarrow> ServerBinding \<Rightarrow> ServerBinding" where
  "update_credentials token password sb =
     (let sb1 = (if token = None \<and> remote_password sb \<noteq> password
                 then sb\<lparr>remote_password := password\<rparr> else sb)
      in if token \<noteq> None \<and> remote_token sb1 \<noteq> token
         then (let sb2 = sb1\<lparr>remote_token := token\<rparr>
               in if remote_password sb2 \<noteq> None then sb2\<lparr>remote_password := None\<rparr> else sb2)
         else sb1)"

definition bind_server ::
  "(string \<Rightarrow> string) \<Rightarrow> (string \<Rightarrow> string \<Rightarrow> string option \<Rightarrow> error + string option)
     \<Rightarrow> (string \<Rightarrow> error option)
     \<Rightarrow> string \<Rightarrow> string option \<Rightarrow> string \<Rightarrow> string option \<Rightarrow> store
     \<Rightarrow> error option \<times> store" where
  "bind_server normalized_path request_token makedirs lf0 url0 username password0 st =
     (let lf = normalized_path lf0 in
      case normalize_url url0 of
        Inl e \<Rightarrow> (Some e, st)
      | Inr url \<Rightarrow>
          (case request_token url username password0 of
             Inl e \<Rightarrow> (Some e, st)
           | Inr token \<Rightarrow>
               (let password = (if token \<noteq> None then None else password0) in
                case one (filter (\<lambda>sb. sb_local_folder sb = lf) (servers st)) of
                  Inr server_binding \<Rightarrow>
                    (if remote_user server_binding \<noteq> username \<or> server_url server_binding \<noteq> url
                     then (Some AlreadyBound, st)
                     else (makedirs lf,
                           st\<lparr>servers :=
                                map (\<lambda>sb. if sb_local_folder sb = lf
                                          then update_credentials token password sb else sb)
                                  (servers st)\<rparr>))
                | Inl NoResultFound \<Rightarrow>
                    (makedirs lf,
                     st\<lparr>servers := servers st @
                          [\<lparr>sb_local_folder = lf, server_url = url, remote_user = username,
                            remote_password = password, remote_token = token\<rparr>]\<rparr>)
                | Inl e \<Rightarrow> (Some e, st))))"

text \<open>
  The cache of remote clients: a dictionary from (server URL, user, device id, base
  folder, repository) to the client.  \<^verbatim>\<open>invalidate_client_cache\<close> deletes the entries of
  the clients of a server while it walks the list of items (a copy, in Python 2).
\<close>

record remote_client =
  client_server_url :: string
  client_repository :: string

type_synonym cache_key = "string \<times> string \<times> string \<times> string option \<times> string"

definition invalidate_client_cache ::
  "string \<Rightarrow> (cache_key \<rightharpoonup> remote_client) \<Rightarrow> (cache_key \<rightharpoonup> remote_client)" where
  "invalidate_client_cache url cache =
     (\<lambda>key. case cache key of
        None \<Rightarrow> None
      | Some client \<Rightarrow> if client_server_url client = url then None else Some client)"

text \<open>
  Modelled from the spec: the object model (\<^verbatim>\<open>nxdrive/model.py\<close>) is not part of the
  sources.  Deleting a server binding deletes its root bindings and their pair states;
  deleting a root binding deletes its pair states.
\<close>

definition delete_root_binding :: "RootBinding \<Rightarrow> store \<Rightarrow> store" where
  "delete_root_binding binding st =
     st\<lparr>roots := filter (\<lambda>rb. local_root rb \<noteq> local_root binding) (roots st),
        states := filter (\<lambda>s. lks_local_root s \<noteq> local_root binding) (states st)\<rparr>"

definition delete_server_binding :: "ServerBinding \<Rightarrow> store \<Rightarrow> store" where
  "delete_server_binding binding st =
     (let gone = filter (\<lambda>rb. rb_local_folder rb = sb_local_folder binding) (roots st)
      in st\<lparr>servers := filter (\<lambda>sb. sb_local_folder sb \<noteq> sb_local_folder binding) (servers st),
            roots := filter (\<lambda>rb. rb_local_folder rb \<noteq> sb_local_folder binding) (roots st),
            states := filter (\<lambda>s. lks_local_root s \<notin> set (map local_root gone)) (states st)\<rparr>)"

text \<open>
  \<^verbatim>\<open>unbind_server(local_folder)\<close>.  \<open>revoke_token binding\<close> is what building a client from
  the binding's token and revoking the token raises, if anything.  It returns what it
  raised, the session and the cache.
\<close>

definition swallowed :: "error option \<Rightarrow> error option" where
  "swallowed outcome =
     (case outcome of
        Some NetworkError \<Rightarrow> None
      | Some Unauthorized \<Rightarrow> None
      | other \<Rightarrow> other)"

definition unbind_server ::
  "(string \<Rightarrow> string) \<Rightarrow> (ServerBinding \<Rightarrow> error option) \<Rightarrow> string \<Rightarrow> store
     \<Rightarrow> (cache_key \<rightharpoonup> remote_client)
     \<Rightarrow> error option \<times> store \<times> (cache_key \<rightharpoonup> remote_client)" where
  "unbind_server normalized_path revoke_token lf0 st cache =
     (let lf = normalized_path lf0 in
      case get_server_binding normalized_path lf True st of
        Inl e \<Rightarrow> (Some e, st, cache)
      | Inr None \<Rightarrow> (Some (OtherError ''AttributeError''), st, cache)
      | Inr (Some binding) \<Rightarrow>
          (case (if remote_token binding \<noteq> None then swallowed (revoke_token binding) else None) of
             Some e \<Rightarrow> (Some e, st, cache)
           | None \<Rightarrow>
               (None, delete_server_binding binding st,
                invalidate_client_cache (server_url binding) cache)))"

text \<open>A server binding does not carry both a password and a token.\<close>

definition credentials_exclusive :: "ServerBinding \<Rightarrow> bool" where
  "credentials_exclusive sb = (\<not> (remote_password sb \<noteq> None \<and> remote_token sb \<noteq> None))"

section \<open>Root alignment\<close>

text \<open>
  What the server says about a remote root (\<^verbatim>\<open>RemoteInfo\<close> of the remote client).
\<close>

record RemoteInfo =
  uid :: string
  name :: string
  ri_folderish :: bool

text \<open>
  The collaborators of \<^verbatim>\<open>_local_bind_root\<close> are parameters: \<^verbatim>\<open>os.path.join\<close>,
  \<^verbatim>\<open>safe_filename\<close>, the creation of the missing local root, \<^verbatim>\<open>LocalClient.get_info\<close>
  (what it raises, if anything), the constructor of \<^verbatim>\<open>LastKnownState\<close>, and the two
  scanners of the synchronizer, which work on the pair states.  \<open>set_iter\<close> is the order
  in which Python iterates over a set, given its elements in some order.
\<close>

record collaborators =
  os_path_join :: "string \<Rightarrow> string \<Rightarrow> string"
  safe_filename :: "string \<Rightarrow> string"
  makedirs :: "string \<Rightarrow> error option"
  local_info :: "string \<Rightarrow> error option"
  new_state :: "ServerBinding \<Rightarrow> string \<Rightarrow> RemoteInfo \<Rightarrow> LastKnownState"
  scan_local :: "ServerBinding \<Rightarrow> LastKnownState \<Rightarrow> LastKnownState list \<Rightarrow> error + LastKnownState list"
  scan_remote :: "ServerBinding \<Rightarrow> LastKnownState \<Rightarrow> LastKnownState list \<Rightarrow> error + LastKnownState list"
  set_iter :: "string list \<Rightarrow> string list"

text \<open>
  Modelled from the spec: \<^verbatim>\<open>nxdrive/model.py\<close> is not part of the sources.  A new root
  binding refers to the server binding it is created under; the pair state of a new
  root is \<^verbatim>\<open>synchronized/synchronized\<close> for a folder and \<^verbatim>\<open>synchronized/modified\<close>
  otherwise, which makes the pair remotely modified.
\<close>

definition new_root_binding :: "ServerBinding \<Rightarrow> string \<Rightarrow> string \<Rightarrow> string \<Rightarrow> RootBinding" where
  "new_root_binding sb lr repository ref =
     \<lparr>local_root = lr, remote_repo = repository, remote_root = ref,
      rb_local_folder = sb_local_folder sb\<rparr>"

definition update_state :: "string \<Rightarrow> string \<Rightarrow> LastKnownState \<Rightarrow> LastKnownState" where
  "update_state ls rs s =
     s\<lparr>local_state := ls, remote_state := rs,
       pair_state := (if rs = ''synchronized'' then ''synchronized'' else ''remotely_modified'')\<rparr>"

text \<open>
  \<^verbatim>\<open>_local_bind_root(server_binding, remote_info, nxclient, session)\<close>; \<open>repository\<close> is
  \<^verbatim>\<open>nxclient.repository\<close>.
\<close>

definition local_root_for :: "collaborators \<Rightarrow> ServerBinding \<Rightarrow> RemoteInfo \<Rightarrow> string" where
  "local_root_for env server_binding remote_info =
     os_path_join env (sb_local_folder server_binding) (safe_filename env (name remote_info))"

definition local_bind_root ::
  "collaborators \<Rightarrow> ServerBinding \<Rightarrow> RemoteInfo \<Rightarrow> string \<Rightarrow> store \<Rightarrow> error option \<times> store" where
  "local_bind_root env server_binding remote_info repository st =
     (let lr = local_root_for env server_binding remote_info in
      case makedirs env lr of
        Some e \<Rightarrow> (Some e, st)
      | None \<Rightarrow>
          (case local_info env lr of
             Some e \<Rightarrow> (Some e, st)
           | None \<Rightarrow>
               (case one (filter (\<lambda>rb. local_root rb = lr) (roots st)) of
                  Inr existing_binding \<Rightarrow>
                    (if remote_repo existing_binding \<noteq> repository
                         \<or> remote_root existing_binding \<noteq> uid remote_info
                     then (Some AlreadyBound, st) else (None, st))
                | Inl NoResultFound \<Rightarrow>
                    (let st1 = st\<lparr>roots := roots st @
                                 [new_root_binding server_binding lr repository (uid remote_info)]\<rparr>;
                         state = (if ri_folderish remote_info
                                  then update_state ''synchronized'' ''synchronized''
                                         (new_state env server_binding lr remote_info)
                                  else update_state ''synchronized'' ''modified''
                                         (new_state env server_binding lr remote_info));
                         st2 = st1\<lparr>states := states st1 @ [state]\<rparr>
                     in case scan_local env server_binding state (states st2) of
                          Inl e \<Rightarrow> (Some e, st2)
                        | Inr ss \<Rightarrow>
                            (case scan_remote env server_binding state ss of
                               Inl e \<Rightarrow> (Some e, st2\<lparr>states := ss\<rparr>)
                             | Inr ss' \<Rightarrow> (None, st2\<lparr>states := ss'\<rparr>)))
                | Inl e \<Rightarrow> (Some e, st))))"

text \<open>\<^verbatim>\<open>_local_unbind_root(binding, session)\<close>: delete and commit.\<close>

definition local_unbind_root :: "RootBinding \<Rightarrow> store \<Rightarrow> store" where
  "local_unbind_root binding st = delete_root_binding binding st"

text \<open>
  \<^verbatim>\<open>dict((key(r), r) for r in rs)\<close>: a later item overwrites an earlier one with the
  same key.
\<close>

definition dict_by :: "('a \<Rightarrow> string) \<Rightarrow> 'a list \<Rightarrow> (string \<rightharpoonup> 'a)" where
  "dict_by key rs = map_of (rev (map (\<lambda>r. (key r, r)) rs))"

text \<open>The two loops of \<^verbatim>\<open>update_server_roots\<close>.\<close>

fun unbind_each :: "(string \<rightharpoonup> RootBinding) \<Rightarrow> string list \<Rightarrow> store \<Rightarrow> error option \<times> store" where
  "unbind_each by_id [] st = (None, st)"
| "unbind_each by_id (ref # refs) st =
     (case by_id ref of
        None \<Rightarrow> (Some (OtherError ''KeyError''), st)
      | Some binding \<Rightarrow> unbind_each by_id refs (local_unbind_root binding st))"

fun bind_each ::
  "collaborators \<Rightarrow> ServerBinding \<Rightarrow> (string \<rightharpoonup> RemoteInfo) \<Rightarrow> string \<Rightarrow> string list \<Rightarrow> store
     \<Rightarrow> error option \<times> store" where
  "bind_each env sb by_id repository [] st = (None, st)"
| "bind_each env sb by_id repository (ref # refs) st =
     (case by_id ref of
        None \<Rightarrow> (Some (OtherError ''KeyError''), st)
      | Some remote_info \<Rightarrow>
          (case local_bind_root env sb remote_info repository st of
             (Some e, st') \<Rightarrow> (Some e, st')
           | (None, st') \<Rightarrow> bind_each env sb by_id repository refs st'))"

text \<open>
  \<^verbatim>\<open>update_server_roots(server_binding, session, local_roots, remote_roots, repository)\<close>.
  The remote client of each new root is built for \<open>repository\<close>, which is all that
  \<^verbatim>\<open>_local_bind_root\<close> reads of it.
\<close>

definition update_server_roots ::
  "collaborators \<Rightarrow> ServerBinding \<Rightarrow> store \<Rightarrow> RootBinding list \<Rightarrow> RemoteInfo list \<Rightarrow> string
     \<Rightarrow> error option \<times> store" where
  "update_server_roots env server_binding st local_roots remote_roots repository =
     (let local_roots_by_id = dict_by remote_root local_roots;
          local_root_ids = remdups (map remote_root local_roots);
          remote_roots_by_id = dict_by uid remote_roots;
          remote_root_ids = remdups (map uid remote_roots);
          to_remove = set_iter env (filter (\<lambda>ref. ref \<notin> set remote_root_ids) local_root_ids);
          to_add = set_iter env (filter (\<lambda>ref. ref \<notin> set local_root_ids) remote_root_ids)
      in case unbind_each local_roots_by_id to_remove st of
           (Some e, st') \<Rightarrow> (Some e, st')
         | (None, st') \<Rightarrow> bind_each env server_binding remote_roots_by_id repository to_add st')"

text \<open>
  Modelled from the spec: the caller of the alignment (\<^verbatim>\<open>Synchronizer.update_roots\<close>) is
  not part of the sources.  It passes the root bindings that the store tracks for the
  server binding and the repository.
\<close>

definition tracked_roots :: "ServerBinding \<Rightarrow> string \<Rightarrow> store \<Rightarrow> RootBinding list" where
  "tracked_roots sb repository st =
     filter (\<lambda>rb. rb_local_folder rb = sb_local_folder sb \<and> remote_repo rb = repository) (roots st)"

definition align ::
  "collaborators \<Rightarrow> ServerBinding \<Rightarrow> string \<Rightarrow> RemoteInfo list \<Rightarrow> store \<Rightarrow> error option \<times> store" where
  "align env sb repository remote_roots st =
     update_server_roots env sb st (tracked_roots sb repository st) remote_roots repository"

section \<open>Example stores\<close>

text \<open>Concrete rows and stores, on which the operations are evaluated below.\<close>

definition pair_at ::
  "string \<Rightarrow> string option \<Rightarrow> string \<Rightarrow> bool \<Rightarrow> string \<Rightarrow> int option \<Rightarrow> LastKnownState" where
  "pair_at p parent nm fol ps d =
     \<lparr>local_folder = ''/u/alice/nd'', lks_local_root = ''/u/alice/nd/ws'',
      path = Some p, parent_path = parent, local_name = Some nm,
      remote_ref = None, remote_parent_ref = None, remote_name = Some nm, remote_path = None,
      folderish = fol, local_state = ''unknown'', remote_state = ''unknown'',
      pair_state = ps, last_sync_error_date = d\<rparr>"

definition ex_root_ws :: RootBinding where
  "ex_root_ws = \<lparr>local_root = ''/u/alice/nd/ws'', remote_repo = ''default'',
                 remote_root = ''uid-ws'', rb_local_folder = ''/u/alice/nd''\<rparr>"





definition ex_failed :: LastKnownState where
  "ex_failed = pair_at ''/p'' (Some ''/'') ''p'' False ''locally_modified'' (Some 95000000)"

definition ex_never_failed :: LastKnownState where
  "ex_never_failed = pair_at ''/q'' (Some ''/'') ''q'' False ''remotely_modified'' None"

definition ex_cooldown :: store where
  "ex_cooldown = \<lparr>servers = [], roots = [ex_root_ws], states = [ex_failed, ex_never_failed]\<rparr>"

definition ex_binding_token :: ServerBinding where
  "ex_binding_token = \<lparr>sb_local_folder = ''/u/alice/nd'', server_url = ''http://srv/nuxeo/'',
     remote_user = ''alice'', remote_password = None, remote_token = Some ''tok-1''\<rparr>"

definition ex_store_bound :: store where
  "ex_store_bound = \<lparr>servers = [ex_binding_token], roots = [], states = []\<rparr>"

definition ex_store_empty :: store where
  "ex_store_empty = \<lparr>servers = [], roots = [], states = []\<rparr>"

definition ex_store_both :: store where
  "ex_store_both = \<lparr>servers = [ex_binding_token\<lparr>remote_password := Some ''secret''\<rparr>],
                   roots = [], states = []\<rparr>"

definition ex_password_server :: "string \<Rightarrow> string \<Rightarrow> string option \<Rightarrow> error + string option" where
  "ex_password_server url user pw = Inr None"

definition ex_fs_ok :: "string \<Rightarrow> error option" where
  "ex_fs_ok folder = None"

definition ex_binding_password :: ServerBinding where
  "ex_binding_password = \<lparr>sb_local_folder = ''/u/alice/nd'', server_url = ''http://srv/nuxeo/'',
     remote_user = ''alice'', remote_password = Some ''old'', remote_token = None\<rparr>"

definition ex_store_password :: store where
  "ex_store_password = \<lparr>servers = [ex_binding_password], roots = [], states = []\<rparr>"

definition ex_client_srv :: remote_client where
  "ex_client_srv = \<lparr>client_server_url = ''http://srv/nuxeo/'', client_repository = ''default''\<rparr>"

definition ex_client_other :: remote_client where
  "ex_client_other = \<lparr>client_server_url = ''http://other/nuxeo/'', client_repository = ''default''\<rparr>"

definition ex_key_srv :: cache_key where
  "ex_key_srv = (''http://srv/nuxeo/'', ''alice'', ''dev-1'', None, ''default'')"

definition ex_key_other :: cache_key where
  "ex_key_other = (''http://other/nuxeo/'', ''alice'', ''dev-1'', None, ''default'')"

definition ex_cache :: "cache_key \<rightharpoonup> remote_client" where
  "ex_cache = [ex_key_srv \<mapsto> ex_client_srv, ex_key_other \<mapsto> ex_client_other]"

definition ex_token_server :: "string \<Rightarrow> string \<Rightarrow> string option \<Rightarrow> error + string option" where
  "ex_token_server url user pw = Inr (Some ''tok-1'')"

definition ex_network_down :: "ServerBinding \<Rightarrow> error option" where
  "ex_network_down binding = Some NetworkError"

definition ex_folder_f :: LastKnownState where
  "ex_folder_f = pair_at ''/f'' (Some ''/'') ''f'' True ''synchronized'' None"
definition ex_file_fa :: LastKnownState where
  "ex_file_fa = pair_at ''/f/a'' (Some ''/f'') ''a'' False ''synchronized'' None"
definition ex_file_fb :: LastKnownState where
  "ex_file_fb = pair_at ''/f/b'' (Some ''/f'') ''b'' False ''locally_modified'' None"
definition ex_folder_g :: LastKnownState where
  "ex_folder_g = pair_at ''/g'' (Some ''/'') ''g'' True ''unknown'' None"
definition ex_file_gc :: LastKnownState where
  "ex_file_gc = pair_at ''/g/c'' (Some ''/g'') ''c'' False ''synchronized'' None"
definition ex_folder_h :: LastKnownState where
  "ex_folder_h = pair_at ''/h'' (Some ''/'') ''h'' True ''synchronized'' None"
definition ex_file_hd :: LastKnownState where
  "ex_file_hd = pair_at ''/h/d'' (Some ''/h'') ''d'' False ''locally_modified'' None"
definition ex_root_state :: LastKnownState where
  "ex_root_state = pair_at ''/'' None ''ws'' True ''synchronized'' None"

definition ex_tree :: "LastKnownState list" where
  "ex_tree = [ex_root_state, ex_folder_f, ex_file_fb, ex_file_fa, ex_folder_g, ex_file_gc, ex_folder_h, ex_file_hd]"


definition ex_server_alice :: ServerBinding where
  "ex_server_alice = \<lparr>sb_local_folder = ''/u/alice/nd'', server_url = ''http://srv/nuxeo/'',
     remote_user = ''alice'', remote_password = None, remote_token = Some ''tok-1''\<rparr>"




definition ex_join :: "string \<Rightarrow> string \<Rightarrow> string" where
  "ex_join a b = a @ ''/'' @ b"

definition ex_new_state :: "ServerBinding \<Rightarrow> string \<Rightarrow> RemoteInfo \<Rightarrow> LastKnownState" where
  "ex_new_state sb lr ri =
     \<lparr>local_folder = sb_local_folder sb, lks_local_root = lr,
      path = Some ''/'', parent_path = None, local_name = Some (name ri),
      remote_ref = Some (uid ri), remote_parent_ref = None, remote_name = Some (name ri),
      remote_path = Some ''/'', folderish = ri_folderish ri,
      local_state = ''unknown'', remote_state = ''unknown'',
      pair_state = ''unknown'', last_sync_error_date = None\<rparr>"

definition ex_scan :: "ServerBinding \<Rightarrow> LastKnownState \<Rightarrow> LastKnownState list \<Rightarrow> error + LastKnownState list" where
  "ex_scan sb s ss = Inr ss"

definition ex_env :: collaborators where
  "ex_env = \<lparr>os_path_join = ex_join, safe_filename = (\<lambda>n. n), makedirs = ex_fs_ok,
             local_info = ex_fs_ok, new_state = ex_new_state,
             scan_local = ex_scan, scan_remote = ex_scan, set_iter = (\<lambda>xs. xs)\<rparr>"

definition ex_root :: "string \<Rightarrow> string \<Rightarrow> RootBinding" where
  "ex_root nm ref = \<lparr>local_root = ''/u/alice/nd/'' @ nm, remote_repo = ''default'',
                     remote_root = ref, rb_local_folder = ''/u/alice/nd''\<rparr>"

definition ex_remote :: "string \<Rightarrow> string \<Rightarrow> RemoteInfo" where
  "ex_remote nm ref = \<lparr>uid = ref, name = nm, ri_folderish = True\<rparr>"

definition ex_state_under :: "string \<Rightarrow> string \<Rightarrow> LastKnownState" where
  "ex_state_under nm ref = ex_new_state ex_server_alice (''/u/alice/nd/'' @ nm) (ex_remote nm ref)"

definition ex_store_ab :: store where
  "ex_store_ab = \<lparr>servers = [ex_server_alice],
                  roots = [ex_root ''A'' ''uid-a'', ex_root ''B'' ''uid-b''],
                  states = [ex_state_under ''A'' ''uid-a'', ex_state_under ''B'' ''uid-b'']\<rparr>"

definition ex_store_twice :: store where
  "ex_store_twice = \<lparr>servers = [ex_server_alice],
                  roots = [ex_root ''A'' ''uid-a'', ex_root ''A2'' ''uid-a''],
                  states = []\<rparr>"

definition ex_store_once :: store where
  "ex_store_once = \<lparr>servers = [ex_server_alice], roots = [ex_root ''A'' ''uid-a''], states = []\<rparr>"

definition ex_store_none :: store where
  "ex_store_none = \<lparr>servers = [ex_server_alice], roots = [], states = []\<rparr>"

definition ex_store_bc :: store where
  "ex_store_bc = \<lparr>servers = [ex_server_alice],
                  roots = [ex_root ''B'' ''uid-b'', ex_root ''C'' ''uid-c''],
                  states = [ex_state_under ''B'' ''uid-b'',
                            update_state ''synchronized'' ''synchronized'' (ex_state_under ''C'' ''uid-c'')]\<rparr>"

definition ex_remotes_bc :: "RemoteInfo list" where
  "ex_remotes_bc = [ex_remote ''B'' ''uid-b'', ex_remote ''C'' ''uid-c'']"

definition ex_cooldown_mixed :: store where
  "ex_cooldown_mixed = \<lparr>servers = [], roots = [ex_root_ws], states =
     [pair_at ''/a'' (Some ''/'') ''a'' False ''synchronized'' None, ex_failed]\<rparr>"

definition ex_store_password_new :: store where
  "ex_store_password_new =
     \<lparr>servers = [ex_binding_password\<lparr>remote_password := Some ''secret''\<rparr>],
      roots = [], states = []\<rparr>"

section \<open>Properties of URL normalization\<close>

text \<open>
  Claim C9.  A non-empty URL is returned unchanged when it ends with a slash and with a
  slash appended otherwise; the result ends with a slash and normalizing it again gives
  it back.  \<^verbatim>\<open>None\<close> and the empty URL are rejected with \<open>InvalidArgument\<close>.
\<close>

theorem normalize_url_idempotent:
  "(url \<noteq> [] \<longrightarrow>
      (\<exists>v. normalize_url (Some url) = Inr v
         \<and> (if endswith_slash url then v = url else v = url @ ''/'')
         \<and> endswith_slash v
         \<and> normalize_url (Some v) = Inr v))
   \<and> normalize_url None = Inl InvalidArgument
   \<and> normalize_url (Some []) = Inl InvalidArgument"
  by (simp add: endswith_slash_def)

theorem normalize_url_idempotent_witness:
  "normalize_url (Some ''http://srv/nuxeo'') = Inr ''http://srv/nuxeo/''
   \<and> normalize_url (Some ''http://srv/nuxeo/'') = Inr ''http://srv/nuxeo/''"
proof -
  have ne: "''http://srv/nuxeo'' \<noteq> []" by simp
  from normalize_url_idempotent [of "''http://srv/nuxeo''"] ne
  obtain v where v: "normalize_url (Some ''http://srv/nuxeo'') = Inr v"
    and app: "if endswith_slash ''http://srv/nuxeo'' then v = ''http://srv/nuxeo''
              else v = ''http://srv/nuxeo'' @ ''/''"
    and again: "normalize_url (Some v) = Inr v"
    by blast
  from app have "v = ''http://srv/nuxeo/''" by (simp add: endswith_slash_def)
  with v again show ?thesis by simp
qed

section \<open>Properties of path resolution\<close>




section \<open>Properties of the pending work\<close>

lemma set_list_pending:
  "set (list_pending limit lf ign now st)
     \<subseteq> {s \<in> set (states st). pending_predicates lf ign now s}"
  unfolding list_pending_def
  using set_take_subset [of limit
      "sort_key pending_key (filter (pending_predicates lf ign now) (states st))"]
  by auto

lemma list_pending_unlimited:
  assumes h: "length (states st) \<le> limit"
  shows "set (list_pending limit lf ign now st)
           = {s \<in> set (states st). pending_predicates lf ign now s}"
proof -
  have "length (filter (pending_predicates lf ign now) (states st)) \<le> length (states st)"
    by (rule length_filter_le)
  with h have "length (filter (pending_predicates lf ign now) (states st)) \<le> limit"
    by linarith
  then have "take limit (sort_key pending_key (filter (pending_predicates lf ign now) (states st)))
     = sort_key pending_key (filter (pending_predicates lf ign now) (states st))"
    by simp
  then show ?thesis by (simp add: list_pending_def)
qed



lemma list_pending_eligible_or_full:
  assumes el: "pending_predicates lf ign now s" and mem: "s \<in> set (states st)"
  shows "s \<in> set (list_pending limit lf ign now st)
     \<or> (length (list_pending limit lf ign now st) = limit
        \<and> (\<forall>r \<in> set (list_pending limit lf ign now st). pending_key r \<le> pending_key s))"
proof -
  let ?full = "sort_key pending_key (filter (pending_predicates lf ign now) (states st))"
  have res: "list_pending limit lf ign now st = take limit ?full"
    by (simp add: list_pending_def)
  from el mem have sf: "s \<in> set ?full" by simp
  show ?thesis
  proof (cases "s \<in> set (take limit ?full)")
    case True
    then show ?thesis by (simp add: res)
  next
    case False
    have "set ?full = set (take limit ?full) \<union> set (drop limit ?full)"
      by (metis append_take_drop_id set_append)
    with sf False have sd: "s \<in> set (drop limit ?full)" by blast
    then have "drop limit ?full \<noteq> []" by auto
    then have "limit < length ?full" by simp
    then have len: "length (take limit ?full) = limit" by simp
    have "sorted (map pending_key ?full)" by simp
    then have "sorted (map pending_key (take limit ?full) @ map pending_key (drop limit ?full))"
      by (metis append_take_drop_id map_append)
    then have "\<forall>x \<in> set (map pending_key (take limit ?full)).
                 \<forall>y \<in> set (map pending_key (drop limit ?full)). x \<le> y"
      by (simp only: sorted_append) blast
    with sd have "\<forall>r \<in> set (take limit ?full). pending_key r \<le> pending_key s"
      by auto
    with len show ?thesis by (simp add: res)
  qed
qed

lemma list_pending_eligible_room:
  assumes el: "pending_predicates lf ign now s" and mem: "s \<in> set (states st)"
    and room: "length (filter (\<lambda>r. pending_predicates lf ign now r
                                   \<and> pending_key r \<le> pending_key s) (states st)) \<le> limit"
  shows "s \<in> set (list_pending limit lf ign now st)"
proof (rule ccontr)
  assume out: "s \<notin> set (list_pending limit lf ign now st)"
  let ?full = "sort_key pending_key (filter (pending_predicates lf ign now) (states st))"
  let ?Q = "\<lambda>r. pending_key r \<le> pending_key s"
  have res: "list_pending limit lf ign now st = take limit ?full"
    by (simp add: list_pending_def)
  from list_pending_eligible_or_full [OF el mem, of limit] out
  have len: "length (take limit ?full) = limit"
    and le: "\<forall>r \<in> set (take limit ?full). ?Q r"
    by (simp_all add: res)
  from el mem have "s \<in> set ?full" by simp
  moreover have "set ?full = set (take limit ?full) \<union> set (drop limit ?full)"
    by (metis append_take_drop_id set_append)
  ultimately have sd: "s \<in> set (drop limit ?full)" using out res by auto
  then have "s \<in> set (filter ?Q (drop limit ?full))" by simp
  then have pos: "0 < length (filter ?Q (drop limit ?full))" by (rule length_pos_if_in_set)
  from le have "filter ?Q (take limit ?full) = take limit ?full" by simp
  with len have "length (filter ?Q (take limit ?full)) = limit" by simp
  moreover have "filter ?Q ?full = filter ?Q (take limit ?full) @ filter ?Q (drop limit ?full)"
    by (metis append_take_drop_id filter_append)
  ultimately have big: "limit < length (filter ?Q ?full)" using pos by simp
  have "filter ?Q ?full = sort_key pending_key (filter ?Q (filter (pending_predicates lf ign now) (states st)))"
    by (rule filter_sort)
  then have "length (filter ?Q ?full)
      = length (filter ?Q (filter (pending_predicates lf ign now) (states st)))"
    by simp
  also have "\<dots> = length (filter (\<lambda>r. pending_predicates lf ign now r \<and> ?Q r) (states st))"
    by simp
  finally show False using big room by simp
qed

text \<open>
  Claim C4.  With a cooldown of \<open>secs > 0\<close> seconds, a pair state whose last error is at
  or after \<open>now - secs\<close> is not returned.  A pair state that is not synchronized (and of
  the given local folder) whose last error is before \<open>now - secs\<close> is returned subject to
  the limit: it is returned, or \<open>limit\<close> pair states are returned and none of them comes
  after it in the order; it is returned whenever at most \<open>limit\<close> pair states pass the
  filters and do not come after it, and in particular when the limit leaves room for every
  pair state of the store.
\<close>

theorem list_pending_error_cooldown:
  assumes "0 < secs" and "s \<in> set (states st)" and "last_sync_error_date s = Some d"
  shows "(now - secs * 1000000 \<le> d \<longrightarrow> s \<notin> set (list_pending limit lf (Some secs) now st))
     \<and> (d < now - secs * 1000000 \<and> pair_state s \<noteq> ''synchronized''
          \<and> (\<forall>f. lf = Some f \<longrightarrow> local_folder s = f) \<and> length (states st) \<le> limit
        \<longrightarrow> s \<in> set (list_pending limit lf (Some secs) now st))
     \<and> (d < now - secs * 1000000 \<and> pair_state s \<noteq> ''synchronized''
          \<and> (\<forall>f. lf = Some f \<longrightarrow> local_folder s = f)
        \<longrightarrow> (s \<in> set (list_pending limit lf (Some secs) now st)
              \<or> (length (list_pending limit lf (Some secs) now st) = limit
                 \<and> (\<forall>r \<in> set (list_pending limit lf (Some secs) now st).
                       pending_key r \<le> pending_key s)))
           \<and> (length (filter (\<lambda>r. pending_predicates lf (Some secs) now r
                                    \<and> pending_key r \<le> pending_key s) (states st)) \<le> limit
               \<longrightarrow> s \<in> set (list_pending limit lf (Some secs) now st)))"
proof (intro conjI impI)
  assume "now - secs * 1000000 \<le> d"
  with assms have "\<not> pending_predicates lf (Some secs) now s"
    by (simp add: pending_predicates_def recently_failed_filter_def)
  then show "s \<notin> set (list_pending limit lf (Some secs) now st)"
    using set_list_pending [of limit lf "Some secs" now st] by auto
next
  assume h: "d < now - secs * 1000000 \<and> pair_state s \<noteq> ''synchronized''
          \<and> (\<forall>f. lf = Some f \<longrightarrow> local_folder s = f) \<and> length (states st) \<le> limit"
  with assms have "pending_predicates lf (Some secs) now s"
    by (auto simp: pending_predicates_def recently_failed_filter_def split: option.splits)
  with h assms show "s \<in> set (list_pending limit lf (Some secs) now st)"
    by (simp add: list_pending_unlimited)
next
  assume h: "d < now - secs * 1000000 \<and> pair_state s \<noteq> ''synchronized''
          \<and> (\<forall>f. lf = Some f \<longrightarrow> local_folder s = f)"
  with assms have "pending_predicates lf (Some secs) now s"
    by (auto simp: pending_predicates_def recently_failed_filter_def split: option.splits)
  from list_pending_eligible_or_full [OF this assms(2)]
  show "s \<in> set (list_pending limit lf (Some secs) now st)
              \<or> (length (list_pending limit lf (Some secs) now st) = limit
                 \<and> (\<forall>r \<in> set (list_pending limit lf (Some secs) now st).
                       pending_key r \<le> pending_key s))" .
next
  assume h: "d < now - secs * 1000000 \<and> pair_state s \<noteq> ''synchronized''
          \<and> (\<forall>f. lf = Some f \<longrightarrow> local_folder s = f)"
    and room: "length (filter (\<lambda>r. pending_predicates lf (Some secs) now r
                                    \<and> pending_key r \<le> pending_key s) (states st)) \<le> limit"
  from h assms have "pending_predicates lf (Some secs) now s"
    by (auto simp: pending_predicates_def recently_failed_filter_def split: option.splits)
  from list_pending_eligible_room [OF this assms(2) room]
  show "s \<in> set (list_pending limit lf (Some secs) now st)" .
qed

theorem list_pending_error_cooldown_witness:
  "ex_failed \<notin> set (list_pending 10 None (Some 10) 100000000 ex_cooldown)
   \<and> ex_failed \<in> set (list_pending 10 None (Some 1) 100000000 ex_cooldown)
   \<and> length (states ex_cooldown_mixed) = 2
   \<and> ex_failed \<in> set (list_pending 1 None (Some 1) 100000000 ex_cooldown_mixed)
   \<and> ex_failed \<notin> set (list_pending 1 None (Some 10) 100000000 ex_cooldown_mixed)"
proof -
  have m: "ex_failed \<in> set (states ex_cooldown)" by (simp add: ex_cooldown_def)
  have d: "last_sync_error_date ex_failed = Some 95000000"
    by (simp add: ex_failed_def pair_at_def)
  have p: "pair_state ex_failed \<noteq> ''synchronized''" by (simp add: ex_failed_def pair_at_def)
  have l: "length (states ex_cooldown) \<le> 10" by (simp add: ex_cooldown_def)
  have s10: "(0::int) < 10" and s1: "(0::int) < 1" by simp_all
  from list_pending_error_cooldown [OF s10 m d, of 100000000 10 None]
  have a: "ex_failed \<notin> set (list_pending 10 None (Some 10) 100000000 ex_cooldown)" by simp
  from list_pending_error_cooldown [OF s1 m d, of 100000000 10 None] p l
  have b: "ex_failed \<in> set (list_pending 10 None (Some 1) 100000000 ex_cooldown)" by simp
  have mm: "ex_failed \<in> set (states ex_cooldown_mixed)" by (simp add: ex_cooldown_mixed_def)
  have two: "length (states ex_cooldown_mixed) = 2" by (simp add: ex_cooldown_mixed_def)
  have room: "length (filter (\<lambda>r. pending_predicates None (Some 1) 100000000 r
                  \<and> pending_key r \<le> pending_key ex_failed) (states ex_cooldown_mixed)) \<le> 1"
    by (simp add: ex_cooldown_mixed_def ex_failed_def pair_at_def pending_predicates_def
        recently_failed_filter_def pending_key_def)
  from list_pending_error_cooldown [OF s1 mm d, of 100000000 1 None] p room
  have c: "ex_failed \<in> set (list_pending 1 None (Some 1) 100000000 ex_cooldown_mixed)" by simp
  from list_pending_error_cooldown [OF s10 mm d, of 100000000 1 None]
  have e: "ex_failed \<notin> set (list_pending 1 None (Some 10) 100000000 ex_cooldown_mixed)" by simp
  from a b two c e show ?thesis by simp
qed

text \<open>
  Claim C10.  With a cooldown of \<open>secs > 0\<close> seconds, a pair state that never recorded an
  error passes the filters exactly when it passes them without the cooldown; when it is
  not synchronized (and of the given local folder) it is returned when the limit leaves
  room for every pair state of the store.
\<close>

theorem list_pending_never_failed_eligible:
  assumes "0 < secs" and "s \<in> set (states st)" and "last_sync_error_date s = None"
  shows "pending_predicates lf (Some secs) now s = pending_predicates lf None now s
     \<and> (pair_state s \<noteq> ''synchronized'' \<and> (\<forall>f. lf = Some f \<longrightarrow> local_folder s = f)
          \<and> length (states st) \<le> limit
        \<longrightarrow> s \<in> set (list_pending limit lf (Some secs) now st))"
proof (intro conjI impI)
  show "pending_predicates lf (Some secs) now s = pending_predicates lf None now s"
    using assms by (simp add: pending_predicates_def recently_failed_filter_def)
next
  assume h: "pair_state s \<noteq> ''synchronized'' \<and> (\<forall>f. lf = Some f \<longrightarrow> local_folder s = f)
          \<and> length (states st) \<le> limit"
  with assms have "pending_predicates lf (Some secs) now s"
    by (auto simp: pending_predicates_def recently_failed_filter_def split: option.splits)
  with h assms show "s \<in> set (list_pending limit lf (Some secs) now st)"
    by (simp add: list_pending_unlimited)
qed

theorem list_pending_never_failed_eligible_witness:
  "ex_never_failed \<in> set (list_pending 10 (Some ''/u/alice/nd'') (Some 10) 100000000 ex_cooldown)
   \<and> map path (list_pending 10 (Some ''/u/alice/nd'') (Some 10) 100000000 ex_cooldown)
       = [Some ''/q'']"
proof -
  have m: "ex_never_failed \<in> set (states ex_cooldown)" by (simp add: ex_cooldown_def)
  have d: "last_sync_error_date ex_never_failed = None"
    by (simp add: ex_never_failed_def pair_at_def)
  have p: "pair_state ex_never_failed \<noteq> ''synchronized''"
    by (simp add: ex_never_failed_def pair_at_def)
  have f: "local_folder ex_never_failed = ''/u/alice/nd''"
    by (simp add: ex_never_failed_def pair_at_def)
  have l: "length (states ex_cooldown) \<le> 10" by (simp add: ex_cooldown_def)
  have s10: "(0::int) < 10" by simp
  from list_pending_never_failed_eligible [OF s10 m d, of "Some ''/u/alice/nd''" 100000000 10] p f l
  have a: "ex_never_failed
      \<in> set (list_pending 10 (Some ''/u/alice/nd'') (Some 10) 100000000 ex_cooldown)"
    by simp
  have b: "map path (list_pending 10 (Some ''/u/alice/nd'') (Some 10) 100000000 ex_cooldown)
      = [Some ''/q'']"
    by (simp add: list_pending_def ex_cooldown_def ex_failed_def ex_never_failed_def pair_at_def
        pending_predicates_def pending_key_def recently_failed_filter_def)
  from a b show ?thesis by simp
qed

section \<open>Properties of binding and unbinding a server\<close>

text \<open>
  Claim C5 as stated fails.  A binding holds a token and no password; the server issues
  no token any more; \<^verbatim>\<open>bind_server\<close> stores the password and keeps the token.
\<close>

theorem bind_server_stale_token_counterexample:
  "list_all credentials_exclusive (servers ex_store_bound)
   \<and> bind_server (\<lambda>p. p) ex_password_server ex_fs_ok
        ''/u/alice/nd'' (Some ''http://srv/nuxeo'') ''alice'' (Some ''secret'') ex_store_bound
      = (None, ex_store_both)
   \<and> \<not> list_all credentials_exclusive (servers ex_store_both)"
  by (simp add: bind_server_def ex_store_bound_def ex_store_both_def ex_binding_token_def
      credentials_exclusive_def endswith_slash_def update_credentials_def
      ex_password_server_def ex_fs_ok_def)

lemma update_credentials_exclusive:
  "credentials_exclusive sb \<Longrightarrow> token \<noteq> None \<or> remote_token sb = None \<Longrightarrow>
   credentials_exclusive (update_credentials token (if token \<noteq> None then None else pw) sb)"
  by (auto simp: credentials_exclusive_def update_credentials_def Let_def)

lemma update_credentials_token:
  "credentials_exclusive sb \<Longrightarrow> token \<noteq> None \<Longrightarrow>
   remote_token (update_credentials token None sb) = token
   \<and> remote_password (update_credentials token None sb) = None"
  by (auto simp: credentials_exclusive_def update_credentials_def Let_def)

lemma update_credentials_keeps:
  "sb_local_folder (update_credentials token pw sb) = sb_local_folder sb
   \<and> server_url (update_credentials token pw sb) = server_url sb
   \<and> remote_user (update_credentials token pw sb) = remote_user sb"
  by (simp add: update_credentials_def Let_def)

lemma bind_server_success:
  assumes ok: "bind_server np request_token mkdirs lfolder surl user pw st = (None, st')"
      and url: "normalize_url surl = Inr url"
      and tok: "request_token url user pw = Inr token"
  shows "(servers st' = map (\<lambda>b. if sb_local_folder b = np lfolder
                      then update_credentials token (if token \<noteq> None then None else pw) b else b) (servers st)
            \<and> (\<exists>sb. filter (\<lambda>b. sb_local_folder b = np lfolder) (servers st) = [sb]))
       \<or> (servers st' = servers st @ [\<lparr>sb_local_folder = np lfolder, server_url = url, remote_user = user,
                            remote_password = (if token \<noteq> None then None else pw), remote_token = token\<rparr>]
            \<and> filter (\<lambda>b. sb_local_folder b = np lfolder) (servers st) = [])"
proof (cases "filter (\<lambda>b. sb_local_folder b = np lfolder) (servers st)")
  case Nil
  with ok url tok show ?thesis
    by (auto simp: bind_server_def Let_def)
next
  case (Cons b bs)
  show ?thesis
  proof (cases bs)
    case Nil
    with Cons ok url tok show ?thesis
      by (auto simp: bind_server_def Let_def split: if_splits)
  next
    case (Cons c cs)
    with \<open>filter (\<lambda>b. sb_local_folder b = np lfolder) (servers st) = b # bs\<close> ok url tok
    show ?thesis by (simp add: bind_server_def Let_def)
  qed
qed

text \<open>
  Claim C5, as amended.  On a store where no server binding carries both a password and a
  token, a successful \<^verbatim>\<open>bind_server\<close> leaves no server binding with both, provided that
  the server issued a token or that no binding of the local folder held a token; when
  the server issues a token, the binding of the local folder holds that token and no
  password.
\<close>

theorem bind_server_credentials_exclusive:
  assumes ok: "bind_server np request_token mkdirs lfolder surl user pw st = (None, st')"
      and url: "normalize_url surl = Inr url"
      and tok: "request_token url user pw = Inr token"
      and pre: "\<forall>sb \<in> set (servers st). credentials_exclusive sb"
  shows "((token \<noteq> None \<or> (\<forall>sb \<in> set (servers st). sb_local_folder sb = np lfolder \<longrightarrow> remote_token sb = None))
            \<longrightarrow> (\<forall>sb \<in> set (servers st'). credentials_exclusive sb))
       \<and> (token \<noteq> None \<longrightarrow> (\<forall>sb \<in> set (servers st'). sb_local_folder sb = np lfolder
                              \<longrightarrow> remote_token sb = token \<and> remote_password sb = None))
       \<and> (\<exists>sb \<in> set (servers st'). sb_local_folder sb = np lfolder)"
proof -
  from bind_server_success [OF ok url tok]
  consider
    (upd) sb where "servers st' = map (\<lambda>b. if sb_local_folder b = np lfolder
                      then update_credentials token (if token \<noteq> None then None else pw) b else b) (servers st)"
      and "filter (\<lambda>b. sb_local_folder b = np lfolder) (servers st) = [sb]"
  | (new) "servers st' = servers st @ [\<lparr>sb_local_folder = np lfolder, server_url = url, remote_user = user,
                            remote_password = (if token \<noteq> None then None else pw), remote_token = token\<rparr>]"
      and "filter (\<lambda>b. sb_local_folder b = np lfolder) (servers st) = []"
    by blast
  then show ?thesis
  proof cases
    case upd
    from upd(2) have "sb \<in> set (filter (\<lambda>b. sb_local_folder b = np lfolder) (servers st))" by simp
    then have sbin: "sb \<in> set (servers st)" and sblf: "sb_local_folder sb = np lfolder" by auto
    let ?upd = "update_credentials token (if token \<noteq> None then None else pw)"
    have el: "\<And>x. x \<in> set (servers st') \<Longrightarrow>
        \<exists>b \<in> set (servers st). (sb_local_folder b = np lfolder \<and> x = ?upd b)
                                  \<or> (sb_local_folder b \<noteq> np lfolder \<and> x = b)"
      unfolding upd(1) by auto
    have a: "(token \<noteq> None \<or> (\<forall>sb \<in> set (servers st). sb_local_folder sb = np lfolder \<longrightarrow> remote_token sb = None))
            \<longrightarrow> (\<forall>sb \<in> set (servers st'). credentials_exclusive sb)"
    proof (intro impI ballI)
      fix x
      assume c: "token \<noteq> None \<or> (\<forall>sb \<in> set (servers st). sb_local_folder sb = np lfolder \<longrightarrow> remote_token sb = None)"
        and x: "x \<in> set (servers st')"
      from el [OF x] obtain b where b: "b \<in> set (servers st)"
        and d: "(sb_local_folder b = np lfolder \<and> x = ?upd b) \<or> (sb_local_folder b \<noteq> np lfolder \<and> x = b)"
        by blast
      from pre b have eb: "credentials_exclusive b" by blast
      from d show "credentials_exclusive x"
      proof
        assume h: "sb_local_folder b = np lfolder \<and> x = ?upd b"
        then have "sb_local_folder b = np lfolder" by simp
        with c b have "token \<noteq> None \<or> remote_token b = None" by auto
        with eb h show ?thesis using update_credentials_exclusive [of b token pw] by simp
      next
        assume "sb_local_folder b \<noteq> np lfolder \<and> x = b"
        with eb show ?thesis by simp
      qed
    qed
    have b: "token \<noteq> None \<longrightarrow> (\<forall>sb \<in> set (servers st'). sb_local_folder sb = np lfolder
                              \<longrightarrow> remote_token sb = token \<and> remote_password sb = None)"
    proof (intro impI ballI)
      fix x
      assume t: "token \<noteq> None" and x: "x \<in> set (servers st')" and xl: "sb_local_folder x = np lfolder"
      from el [OF x] obtain b where b: "b \<in> set (servers st)"
        and d: "(sb_local_folder b = np lfolder \<and> x = ?upd b) \<or> (sb_local_folder b \<noteq> np lfolder \<and> x = b)"
        by blast
      from d xl have "x = ?upd b" by blast
      with t have "x = update_credentials token None b" by simp
      moreover from pre b have "credentials_exclusive b" by blast
      ultimately show "remote_token x = token \<and> remote_password x = None"
        using update_credentials_token [of b token] t by simp
    qed
    have "?upd sb \<in> set (servers st')"
      unfolding upd(1) using sbin sblf by (auto simp: image_iff intro!: bexI [of _ sb])
    moreover have "sb_local_folder (?upd sb) = np lfolder"
      using sblf update_credentials_keeps [of token _ sb] by simp
    ultimately have c: "\<exists>sb \<in> set (servers st'). sb_local_folder sb = np lfolder"
      by blast
    from a b c show ?thesis by blast
  next
    case new
    from new(2) have none: "\<forall>b \<in> set (servers st). sb_local_folder b \<noteq> np lfolder"
      by (simp add: filter_empty_conv)
    have a: "\<forall>sb \<in> set (servers st'). credentials_exclusive sb"
      using pre new(1) by (auto simp: credentials_exclusive_def)
    have b: "token \<noteq> None \<longrightarrow> (\<forall>sb \<in> set (servers st'). sb_local_folder sb = np lfolder
                              \<longrightarrow> remote_token sb = token \<and> remote_password sb = None)"
      using none new(1) by auto
    have c: "\<exists>sb \<in> set (servers st'). sb_local_folder sb = np lfolder"
      using new(1) by simp
    from a b c show ?thesis by blast
  qed
qed

lemma filter_map_same:
  assumes "\<And>x. P (f x) = P x"
  shows "filter P (map f xs) = map f (filter P xs)"
  using assms by (induction xs) auto

lemma update_credentials_fields:
  "(\<forall>t. token = Some t \<longrightarrow>
       remote_token (update_credentials token (if token \<noteq> None then None else pw) sb) = Some t
     \<and> (remote_token sb \<noteq> Some t \<longrightarrow>
           remote_password (update_credentials token (if token \<noteq> None then None else pw) sb) = None)
     \<and> (remote_token sb = Some t \<longrightarrow>
           remote_password (update_credentials token (if token \<noteq> None then None else pw) sb)
             = remote_password sb))
   \<and> (token = None \<longrightarrow>
       remote_password (update_credentials token (if token \<noteq> None then None else pw) sb) = pw
     \<and> remote_token (update_credentials token (if token \<noteq> None then None else pw) sb)
         = remote_token sb)"
  by (auto simp: update_credentials_def Let_def)

lemma update_credentials_new_binding:
  "update_credentials token (if token \<noteq> None then None else pw)
     \<lparr>sb_local_folder = f, server_url = u, remote_user = n,
      remote_password = (if token \<noteq> None then None else pw), remote_token = token\<rparr>
   = \<lparr>sb_local_folder = f, server_url = u, remote_user = n,
      remote_password = (if token \<noteq> None then None else pw), remote_token = token\<rparr>"
  by (cases token) (simp_all add: update_credentials_def Let_def)

text \<open>
  Claim C6.  When the remote client returns, a binding of the local folder with the same
  server URL and user is updated in place by \<^verbatim>\<open>bind_server\<close>: it remains the only binding of
  the folder, keeps its folder, URL and user, and nothing else of the store changes.  Its
  credentials become these: when the server issues a token, the binding holds that token,
  and its password is cleared unless it held that token already; when the server issues
  none, the binding holds the given password and keeps its token.  With another URL or
  user the call raises \<open>AlreadyBound\<close> and leaves the session as it was.  Two calls with
  the same arguments on a store without a binding of the folder add one binding, with the
  normalized URL, the user and the credentials, and the second call changes nothing.
\<close>

theorem bind_server_rebind:
  assumes url: "normalize_url surl = Inr url"
      and tok: "request_token url user pw = Inr token"
  shows "(\<forall>sb. filter (\<lambda>b. sb_local_folder b = np lfolder) (servers st) = [sb] \<longrightarrow>
           (remote_user sb = user \<and> server_url sb = url \<and> mkdirs (np lfolder) = None \<longrightarrow>
              (\<exists>st' sb'. bind_server np request_token mkdirs lfolder surl user pw st = (None, st')
                 \<and> filter (\<lambda>b. sb_local_folder b = np lfolder) (servers st') = [sb']
                 \<and> sb' = update_credentials token (if token \<noteq> None then None else pw) sb
                 \<and> (\<forall>t. token = Some t \<longrightarrow>
                        remote_token sb' = Some t
                      \<and> (remote_token sb \<noteq> Some t \<longrightarrow> remote_password sb' = None)
                      \<and> (remote_token sb = Some t \<longrightarrow> remote_password sb' = remote_password sb))
                 \<and> (token = None \<longrightarrow>
                        remote_password sb' = pw \<and> remote_token sb' = remote_token sb)
                 \<and> sb_local_folder sb' = np lfolder
                 \<and> server_url sb' = url \<and> remote_user sb' = user
                 \<and> length (servers st') = length (servers st)
                 \<and> filter (\<lambda>b. sb_local_folder b \<noteq> np lfolder) (servers st')
                     = filter (\<lambda>b. sb_local_folder b \<noteq> np lfolder) (servers st)
                 \<and> roots st' = roots st \<and> states st' = states st))
         \<and> (remote_user sb \<noteq> user \<or> server_url sb \<noteq> url \<longrightarrow>
              bind_server np request_token mkdirs lfolder surl user pw st = (Some AlreadyBound, st)))
       \<and> (filter (\<lambda>b. sb_local_folder b = np lfolder) (servers st) = [] \<and> mkdirs (np lfolder) = None \<longrightarrow>
            (\<exists>st1 st2. bind_server np request_token mkdirs lfolder surl user pw st = (None, st1)
                 \<and> bind_server np request_token mkdirs lfolder surl user pw st1 = (None, st2)
                 \<and> length (filter (\<lambda>b. sb_local_folder b = np lfolder) (servers st2)) = 1
                 \<and> length (servers st2) = Suc (length (servers st))
                 \<and> st2 = st1
                 \<and> servers st1 = servers st @
                      [\<lparr>sb_local_folder = np lfolder, server_url = url, remote_user = user,
                        remote_password = (if token \<noteq> None then None else pw),
                        remote_token = token\<rparr>]))"
proof (intro conjI allI impI)
  fix sb
  assume ex: "filter (\<lambda>b. sb_local_folder b = np lfolder) (servers st) = [sb]"
    and same: "remote_user sb = user \<and> server_url sb = url \<and> mkdirs (np lfolder) = None"
  let ?u = "update_credentials token (if token \<noteq> None then None else pw) sb"
  let ?g = "\<lambda>b. if sb_local_folder b = np lfolder
                 then update_credentials token (if token \<noteq> None then None else pw) b else b"
  let ?st' = "st\<lparr>servers := map ?g (servers st)\<rparr>"
  from ex have "sb \<in> set (filter (\<lambda>b. sb_local_folder b = np lfolder) (servers st))" by simp
  then have sblf: "sb_local_folder sb = np lfolder" by simp
  have keep: "\<And>b. sb_local_folder (?g b) = sb_local_folder b"
    using update_credentials_keeps by simp
  have run: "bind_server np request_token mkdirs lfolder surl user pw st = (None, ?st')"
    using ex same url tok by (simp add: bind_server_def Let_def)
  have "filter (\<lambda>b. sb_local_folder b = np lfolder) (map ?g (servers st))
          = map ?g (filter (\<lambda>b. sb_local_folder b = np lfolder) (servers st))"
    by (rule filter_map_same) (simp add: keep)
  also have "\<dots> = [?g sb]" by (simp add: ex)
  also have "?g sb = ?u" using sblf by simp
  finally have one: "filter (\<lambda>b. sb_local_folder b = np lfolder) (servers ?st') = [?u]"
    by simp
  have "filter (\<lambda>b. sb_local_folder b \<noteq> np lfolder) (map ?g (servers st))
          = map ?g (filter (\<lambda>b. sb_local_folder b \<noteq> np lfolder) (servers st))"
    by (rule filter_map_same) (simp add: keep)
  also have "\<dots> = filter (\<lambda>b. sb_local_folder b \<noteq> np lfolder) (servers st)"
    by (rule map_idI) simp
  finally have others: "filter (\<lambda>b. sb_local_folder b \<noteq> np lfolder) (servers ?st')
      = filter (\<lambda>b. sb_local_folder b \<noteq> np lfolder) (servers st)"
    by simp
  have flds: "sb_local_folder ?u = np lfolder \<and> server_url ?u = url \<and> remote_user ?u = user"
    using same sblf update_credentials_keeps [of token _ sb] by simp
  note cred = update_credentials_fields [of token pw sb]
  have rest: "length (servers ?st') = length (servers st)
      \<and> roots ?st' = roots st \<and> states ?st' = states st"
    by simp
  from run one others flds cred rest
  show "\<exists>st' sb'. bind_server np request_token mkdirs lfolder surl user pw st = (None, st')
                 \<and> filter (\<lambda>b. sb_local_folder b = np lfolder) (servers st') = [sb']
                 \<and> sb' = update_credentials token (if token \<noteq> None then None else pw) sb
                 \<and> (\<forall>t. token = Some t \<longrightarrow>
                        remote_token sb' = Some t
                      \<and> (remote_token sb \<noteq> Some t \<longrightarrow> remote_password sb' = None)
                      \<and> (remote_token sb = Some t \<longrightarrow> remote_password sb' = remote_password sb))
                 \<and> (token = None \<longrightarrow>
                        remote_password sb' = pw \<and> remote_token sb' = remote_token sb)
                 \<and> sb_local_folder sb' = np lfolder
                 \<and> server_url sb' = url \<and> remote_user sb' = user
                 \<and> length (servers st') = length (servers st)
                 \<and> filter (\<lambda>b. sb_local_folder b \<noteq> np lfolder) (servers st')
                     = filter (\<lambda>b. sb_local_folder b \<noteq> np lfolder) (servers st)
                 \<and> roots st' = roots st \<and> states st' = states st"
    by (intro exI [of _ ?st'] exI [of _ ?u]) simp
next
  fix sb
  assume ex: "filter (\<lambda>b. sb_local_folder b = np lfolder) (servers st) = [sb]"
    and diff: "remote_user sb \<noteq> user \<or> server_url sb \<noteq> url"
  then show "bind_server np request_token mkdirs lfolder surl user pw st = (Some AlreadyBound, st)"
    using url tok by (auto simp: bind_server_def Let_def)
next
  assume h: "filter (\<lambda>b. sb_local_folder b = np lfolder) (servers st) = [] \<and> mkdirs (np lfolder) = None"
  let ?new = "\<lparr>sb_local_folder = np lfolder, server_url = url, remote_user = user,
                remote_password = (if token \<noteq> None then None else pw), remote_token = token\<rparr>"
  let ?st1 = "st\<lparr>servers := servers st @ [?new]\<rparr>"
  let ?g = "\<lambda>b. if sb_local_folder b = np lfolder
                 then update_credentials token (if token \<noteq> None then None else pw) b else b"
  let ?st2 = "?st1\<lparr>servers := map ?g (servers ?st1)\<rparr>"
  from h have none: "\<forall>b \<in> set (servers st). sb_local_folder b \<noteq> np lfolder"
    by (simp add: filter_empty_conv)
  have r1: "bind_server np request_token mkdirs lfolder surl user pw st = (None, ?st1)"
    using h url tok by (simp add: bind_server_def Let_def)
  have f1: "filter (\<lambda>b. sb_local_folder b = np lfolder) (servers ?st1) = [?new]"
    using h by simp
  have r2: "bind_server np request_token mkdirs lfolder surl user pw ?st1 = (None, ?st2)"
    using h url tok f1 by (simp add: bind_server_def Let_def)
  have "map ?g (servers st) = servers st"
    by (rule map_idI) (simp add: none)
  moreover have "?g ?new = ?new"
    using update_credentials_new_binding [of token pw "np lfolder" url user] by simp
  ultimately have fx: "map ?g (servers ?st1) = servers ?st1" by simp
  then have eq: "?st2 = ?st1" by simp
  have len1: "length (filter (\<lambda>b. sb_local_folder b = np lfolder) (servers ?st1)) = 1"
    using f1 by simp
  have len2: "length (servers ?st1) = Suc (length (servers st))" by simp
  have r2': "bind_server np request_token mkdirs lfolder surl user pw ?st1 = (None, ?st1)"
    using r2 eq by simp
  have s1: "servers ?st1 = servers st @ [?new]" by simp
  from r1 r2' len1 len2 s1
  show "\<exists>st1 st2. bind_server np request_token mkdirs lfolder surl user pw st = (None, st1)
                 \<and> bind_server np request_token mkdirs lfolder surl user pw st1 = (None, st2)
                 \<and> length (filter (\<lambda>b. sb_local_folder b = np lfolder) (servers st2)) = 1
                 \<and> length (servers st2) = Suc (length (servers st))
                 \<and> st2 = st1
                 \<and> servers st1 = servers st @
                      [\<lparr>sb_local_folder = np lfolder, server_url = url, remote_user = user,
                        remote_password = (if token \<noteq> None then None else pw),
                        remote_token = token\<rparr>]"
    by (intro exI [of _ ?st1]) simp
qed

text \<open>
  Claim C7.  For the only binding of the local folder, \<^verbatim>\<open>unbind_server\<close> returns normally
  when the binding has no token or when revoking the token succeeds, fails with a network
  error or fails with \<open>Unauthorized\<close>: the binding is deleted, no client of its server
  remains in the cache, and the clients of other servers stay.
\<close>

theorem unbind_server_best_effort:
  assumes ex: "filter (\<lambda>b. sb_local_folder b = np (np lfolder)) (servers st) = [sb]"
      and rv: "remote_token sb = None \<or> revoke_token sb = None
                 \<or> revoke_token sb = Some NetworkError \<or> revoke_token sb = Some Unauthorized"
  shows "\<exists>st' cache'. unbind_server np revoke_token lfolder st cache = (None, st', cache')
       \<and> servers st' = filter (\<lambda>b. sb_local_folder b \<noteq> np (np lfolder)) (servers st)
       \<and> sb \<notin> set (servers st')
       \<and> (\<forall>k c. cache' k = Some c \<longrightarrow> client_server_url c \<noteq> server_url sb)
       \<and> (\<forall>k c. cache k = Some c \<and> client_server_url c \<noteq> server_url sb \<longrightarrow> cache' k = Some c)"
proof -
  from ex have "sb \<in> set (filter (\<lambda>b. sb_local_folder b = np (np lfolder)) (servers st))" by simp
  then have lf: "sb_local_folder sb = np (np lfolder)" by simp
  have sw: "(if remote_token sb \<noteq> None then swallowed (revoke_token sb) else None) = None"
    using rv by (auto simp: swallowed_def)
  have run: "unbind_server np revoke_token lfolder st cache
      = (None, delete_server_binding sb st, invalidate_client_cache (server_url sb) cache)"
    using ex sw by (simp add: unbind_server_def get_server_binding_def Let_def)
  have s: "servers (delete_server_binding sb st)
      = filter (\<lambda>b. sb_local_folder b \<noteq> np (np lfolder)) (servers st)"
    by (simp add: delete_server_binding_def Let_def lf)
  have gone: "sb \<notin> set (servers (delete_server_binding sb st))"
    by (simp add: s lf)
  have ev: "\<forall>k c. invalidate_client_cache (server_url sb) cache k = Some c
              \<longrightarrow> client_server_url c \<noteq> server_url sb"
    by (auto simp: invalidate_client_cache_def split: option.splits if_splits)
  have kept: "\<forall>k c. cache k = Some c \<and> client_server_url c \<noteq> server_url sb
              \<longrightarrow> invalidate_client_cache (server_url sb) cache k = Some c"
    by (auto simp: invalidate_client_cache_def)
  from run s gone ev kept show ?thesis by blast
qed

theorem bind_server_credentials_exclusive_witness:
  "bind_server (\<lambda>p. p) ex_token_server ex_fs_ok
      ''/u/alice/nd'' (Some ''http://srv/nuxeo'') ''alice'' (Some ''secret'') ex_store_password
     = (None, ex_store_bound)
   \<and> list_all credentials_exclusive (servers ex_store_bound)
   \<and> map remote_token (servers ex_store_bound) = [Some ''tok-1'']
   \<and> map remote_password (servers ex_store_bound) = [None]"
proof -
  have ok: "bind_server (\<lambda>p. p) ex_token_server ex_fs_ok
      ''/u/alice/nd'' (Some ''http://srv/nuxeo'') ''alice'' (Some ''secret'') ex_store_password
     = (None, ex_store_bound)"
    by (simp add: bind_server_def ex_store_password_def ex_binding_password_def ex_store_bound_def
        ex_binding_token_def endswith_slash_def update_credentials_def ex_token_server_def ex_fs_ok_def)
  have url: "normalize_url (Some ''http://srv/nuxeo'') = Inr ''http://srv/nuxeo/''"
    by (simp add: endswith_slash_def)
  have tok: "ex_token_server ''http://srv/nuxeo/'' ''alice'' (Some ''secret'')
      = Inr (Some ''tok-1'')"
    by (simp add: ex_token_server_def)
  have pre: "\<forall>sb \<in> set (servers ex_store_password). credentials_exclusive sb"
    by (simp add: ex_store_password_def ex_binding_password_def credentials_exclusive_def)
  from bind_server_credentials_exclusive [where request_token = ex_token_server, OF ok url tok pre]
  have "\<forall>sb \<in> set (servers ex_store_bound). credentials_exclusive sb"
    and "\<forall>sb \<in> set (servers ex_store_bound). sb_local_folder sb = ''/u/alice/nd''
           \<longrightarrow> remote_token sb = Some ''tok-1'' \<and> remote_password sb = None"
    by simp_all
  with ok show ?thesis
    by (simp add: ex_store_bound_def ex_binding_token_def list_all_iff)
qed

theorem bind_server_rebind_witness:
  "bind_server (\<lambda>p. p) ex_token_server ex_fs_ok
      ''/u/alice/nd'' (Some ''http://srv/nuxeo'') ''alice'' (Some ''secret'') ex_store_bound
     = (None, ex_store_bound)
   \<and> bind_server (\<lambda>p. p) ex_token_server ex_fs_ok
      ''/u/alice/nd'' (Some ''http://srv/nuxeo'') ''bob'' (Some ''secret'') ex_store_bound
     = (Some AlreadyBound, ex_store_bound)
   \<and> (\<exists>st1 st2. bind_server (\<lambda>p. p) ex_token_server ex_fs_ok
          ''/u/alice/nd'' (Some ''http://srv/nuxeo'') ''alice'' (Some ''secret'') ex_store_empty
         = (None, st1)
       \<and> bind_server (\<lambda>p. p) ex_token_server ex_fs_ok
          ''/u/alice/nd'' (Some ''http://srv/nuxeo'') ''alice'' (Some ''secret'') st1
         = (None, st2)
       \<and> length (servers st2) = 1)
   \<and> (\<exists>st' sb'. bind_server (\<lambda>p. p) ex_token_server ex_fs_ok
          ''/u/alice/nd'' (Some ''http://srv/nuxeo'') ''alice'' (Some ''secret'') ex_store_password
         = (None, st')
       \<and> filter (\<lambda>b. sb_local_folder b = ''/u/alice/nd'') (servers st') = [sb']
       \<and> remote_password ex_binding_password = Some ''old''
       \<and> remote_token sb' = Some ''tok-1'' \<and> remote_password sb' = None)
   \<and> (\<exists>st' sb'. bind_server (\<lambda>p. p) ex_password_server ex_fs_ok
          ''/u/alice/nd'' (Some ''http://srv/nuxeo'') ''alice'' (Some ''secret'') ex_store_password
         = (None, st')
       \<and> filter (\<lambda>b. sb_local_folder b = ''/u/alice/nd'') (servers st') = [sb']
       \<and> remote_password sb' = Some ''secret'' \<and> remote_token sb' = None)
   \<and> bind_server (\<lambda>p. p) ex_password_server ex_fs_ok
          ''/u/alice/nd'' (Some ''http://srv/nuxeo'') ''alice'' (Some ''secret'') ex_store_password
         = (None, ex_store_password_new)"
proof -
  have url: "normalize_url (Some ''http://srv/nuxeo'') = Inr ''http://srv/nuxeo/''"
    by (simp add: endswith_slash_def)
  have tok_a: "ex_token_server ''http://srv/nuxeo/'' ''alice'' (Some ''secret'')
      = Inr (Some ''tok-1'')"
    by (simp add: ex_token_server_def)
  have tok_b: "ex_token_server ''http://srv/nuxeo/'' ''bob'' (Some ''secret'')
      = Inr (Some ''tok-1'')"
    by (simp add: ex_token_server_def)
  have ex: "filter (\<lambda>b. sb_local_folder b = ''/u/alice/nd'') (servers ex_store_bound)
      = [ex_binding_token]"
    by (simp add: ex_store_bound_def ex_binding_token_def)
  have none: "filter (\<lambda>b. sb_local_folder b = ''/u/alice/nd'') (servers ex_store_empty) = []"
    by (simp add: ex_store_empty_def)
  note a = bind_server_rebind [where request_token = ex_token_server and np = "\<lambda>p. p" and lfolder = "''/u/alice/nd''"
      and st = ex_store_bound and mkdirs = ex_fs_ok, OF url tok_a]
  note b = bind_server_rebind [where request_token = ex_token_server and np = "\<lambda>p. p" and lfolder = "''/u/alice/nd''"
      and st = ex_store_bound and mkdirs = ex_fs_ok, OF url tok_b]
  note c = bind_server_rebind [where request_token = ex_token_server and np = "\<lambda>p. p" and lfolder = "''/u/alice/nd''"
      and st = ex_store_empty and mkdirs = ex_fs_ok, OF url tok_a]
  from a ex obtain st' where r: "bind_server (\<lambda>p. p) ex_token_server ex_fs_ok
      ''/u/alice/nd'' (Some ''http://srv/nuxeo'') ''alice'' (Some ''secret'') ex_store_bound
     = (None, st')"
    by (auto simp: ex_binding_token_def ex_fs_ok_def)
  have 1: "bind_server (\<lambda>p. p) ex_token_server ex_fs_ok
      ''/u/alice/nd'' (Some ''http://srv/nuxeo'') ''alice'' (Some ''secret'') ex_store_bound
     = (None, ex_store_bound)"
    by (simp add: bind_server_def ex_store_bound_def ex_binding_token_def endswith_slash_def
        update_credentials_def ex_token_server_def ex_fs_ok_def)
  from b ex have 2: "bind_server (\<lambda>p. p) ex_token_server ex_fs_ok
      ''/u/alice/nd'' (Some ''http://srv/nuxeo'') ''bob'' (Some ''secret'') ex_store_bound
     = (Some AlreadyBound, ex_store_bound)"
    by (simp add: ex_binding_token_def)
  from c none obtain st1 st2 where
    "bind_server (\<lambda>p. p) ex_token_server ex_fs_ok
          ''/u/alice/nd'' (Some ''http://srv/nuxeo'') ''alice'' (Some ''secret'') ex_store_empty
         = (None, st1)"
    "bind_server (\<lambda>p. p) ex_token_server ex_fs_ok
          ''/u/alice/nd'' (Some ''http://srv/nuxeo'') ''alice'' (Some ''secret'') st1
         = (None, st2)"
    "length (servers st2) = Suc (length (servers ex_store_empty))"
    by (auto simp: ex_fs_ok_def)
  then have 3: "\<exists>st1 st2. bind_server (\<lambda>p. p) ex_token_server ex_fs_ok
          ''/u/alice/nd'' (Some ''http://srv/nuxeo'') ''alice'' (Some ''secret'') ex_store_empty
         = (None, st1)
       \<and> bind_server (\<lambda>p. p) ex_token_server ex_fs_ok
          ''/u/alice/nd'' (Some ''http://srv/nuxeo'') ''alice'' (Some ''secret'') st1
         = (None, st2)
       \<and> length (servers st2) = 1"
    by (auto simp: ex_store_empty_def)
  have tok_p: "ex_password_server ''http://srv/nuxeo/'' ''alice'' (Some ''secret'') = Inr None"
    by (simp add: ex_password_server_def)
  have exp: "filter (\<lambda>b. sb_local_folder b = ''/u/alice/nd'') (servers ex_store_password)
      = [ex_binding_password]"
    by (simp add: ex_store_password_def ex_binding_password_def)
  have same: "remote_user ex_binding_password = ''alice''
      \<and> server_url ex_binding_password = ''http://srv/nuxeo/'' \<and> ex_fs_ok ''/u/alice/nd'' = None"
    by (simp add: ex_binding_password_def ex_fs_ok_def)
  have old: "remote_password ex_binding_password = Some ''old''"
    and notok: "remote_token ex_binding_password = None"
    by (simp_all add: ex_binding_password_def)
  note d = bind_server_rebind [where request_token = ex_token_server and np = "\<lambda>p. p" and lfolder = "''/u/alice/nd''"
      and st = ex_store_password and mkdirs = ex_fs_ok, OF url tok_a]
  note e = bind_server_rebind [where request_token = ex_password_server and np = "\<lambda>p. p" and lfolder = "''/u/alice/nd''"
      and st = ex_store_password and mkdirs = ex_fs_ok, OF url tok_p]
  from d exp same obtain st4 sb4 where
    r4: "bind_server (\<lambda>p. p) ex_token_server ex_fs_ok
          ''/u/alice/nd'' (Some ''http://srv/nuxeo'') ''alice'' (Some ''secret'') ex_store_password
         = (None, st4)"
    and f4: "filter (\<lambda>b. sb_local_folder b = ''/u/alice/nd'') (servers st4) = [sb4]"
    and t4: "\<forall>t. Some ''tok-1'' = Some t \<longrightarrow> remote_token sb4 = Some t
          \<and> (remote_token ex_binding_password \<noteq> Some t \<longrightarrow> remote_password sb4 = None)
          \<and> (remote_token ex_binding_password = Some t
               \<longrightarrow> remote_password sb4 = remote_password ex_binding_password)"
    by blast
  from t4 notok have "remote_token sb4 = Some ''tok-1'' \<and> remote_password sb4 = None" by simp
  with r4 f4 old have 4: "\<exists>st' sb'. bind_server (\<lambda>p. p) ex_token_server ex_fs_ok
          ''/u/alice/nd'' (Some ''http://srv/nuxeo'') ''alice'' (Some ''secret'') ex_store_password
         = (None, st')
       \<and> filter (\<lambda>b. sb_local_folder b = ''/u/alice/nd'') (servers st') = [sb']
       \<and> remote_password ex_binding_password = Some ''old''
       \<and> remote_token sb' = Some ''tok-1'' \<and> remote_password sb' = None"
    by blast
  from e exp same obtain st5 sb5 where
    r5: "bind_server (\<lambda>p. p) ex_password_server ex_fs_ok
          ''/u/alice/nd'' (Some ''http://srv/nuxeo'') ''alice'' (Some ''secret'') ex_store_password
         = (None, st5)"
    and f5: "filter (\<lambda>b. sb_local_folder b = ''/u/alice/nd'') (servers st5) = [sb5]"
    and t5: "(None :: string option) = None \<longrightarrow> remote_password sb5 = Some ''secret''
          \<and> remote_token sb5 = remote_token ex_binding_password"
    by blast
  from t5 notok have "remote_password sb5 = Some ''secret'' \<and> remote_token sb5 = None" by simp
  with r5 f5 have 5: "\<exists>st' sb'. bind_server (\<lambda>p. p) ex_password_server ex_fs_ok
          ''/u/alice/nd'' (Some ''http://srv/nuxeo'') ''alice'' (Some ''secret'') ex_store_password
         = (None, st')
       \<and> filter (\<lambda>b. sb_local_folder b = ''/u/alice/nd'') (servers st') = [sb']
       \<and> remote_password sb' = Some ''secret'' \<and> remote_token sb' = None"
    by blast
  have 6: "bind_server (\<lambda>p. p) ex_password_server ex_fs_ok
          ''/u/alice/nd'' (Some ''http://srv/nuxeo'') ''alice'' (Some ''secret'') ex_store_password
         = (None, ex_store_password_new)"
    by (simp add: bind_server_def ex_store_password_def ex_store_password_new_def
        ex_binding_password_def endswith_slash_def update_credentials_def
        ex_password_server_def ex_fs_ok_def)
  from 1 2 3 4 5 6 show ?thesis by simp
qed

theorem unbind_server_best_effort_witness:
  "\<exists>st' cache'. unbind_server (\<lambda>p. p) ex_network_down ''/u/alice/nd'' ex_store_bound ex_cache
       = (None, st', cache')
     \<and> servers st' = [] \<and> cache' ex_key_srv = None \<and> cache' ex_key_other = Some ex_client_other"
proof -
  have ex: "filter (\<lambda>b. sb_local_folder b = ''/u/alice/nd'') (servers ex_store_bound)
      = [ex_binding_token]"
    by (simp add: ex_store_bound_def ex_binding_token_def)
  have rv: "remote_token ex_binding_token = None \<or> ex_network_down ex_binding_token = None
      \<or> ex_network_down ex_binding_token = Some NetworkError
      \<or> ex_network_down ex_binding_token = Some Unauthorized"
    by (simp add: ex_network_down_def)
  from unbind_server_best_effort [where np = "\<lambda>p. p" and revoke_token = ex_network_down and cache = ex_cache, OF ex rv]
  obtain st' cache' where
    r: "unbind_server (\<lambda>p. p) ex_network_down ''/u/alice/nd'' ex_store_bound ex_cache
          = (None, st', cache')"
    and s: "servers st' = filter (\<lambda>b. sb_local_folder b \<noteq> ''/u/alice/nd'') (servers ex_store_bound)"
    and ev: "\<forall>k c. cache' k = Some c \<longrightarrow> client_server_url c \<noteq> server_url ex_binding_token"
    and kept: "\<forall>k c. ex_cache k = Some c \<and> client_server_url c \<noteq> server_url ex_binding_token
                 \<longrightarrow> cache' k = Some c"
    by blast
  from s have 1: "servers st' = []" by (simp add: ex_store_bound_def ex_binding_token_def)
  have o: "ex_cache ex_key_other = Some ex_client_other" by (simp add: ex_cache_def)
  have d: "client_server_url ex_client_other \<noteq> server_url ex_binding_token"
    by (simp add: ex_client_other_def ex_binding_token_def)
  from kept have "ex_cache ex_key_other = Some ex_client_other
      \<and> client_server_url ex_client_other \<noteq> server_url ex_binding_token
      \<longrightarrow> cache' ex_key_other = Some ex_client_other"
    by blast
  with o d have 2: "cache' ex_key_other = Some ex_client_other" by simp
  from r have "cache' = invalidate_client_cache ''http://srv/nuxeo/'' ex_cache"
    by (simp add: unbind_server_def get_server_binding_def ex_store_bound_def ex_binding_token_def
        swallowed_def ex_network_down_def Let_def)
  then have 3: "cache' ex_key_srv = None"
    by (simp add: invalidate_client_cache_def ex_cache_def ex_key_srv_def ex_key_other_def
        ex_client_srv_def)
  from r 1 2 3 show ?thesis by blast
qed

section \<open>Properties of the aggregated states\<close>

lemma collect_Cons:
  "collect (r # rs) = Inr xs \<Longrightarrow> \<exists>y ys. r = Inr y \<and> collect rs = Inr ys \<and> xs = y # ys"
  by (cases r) (auto split: sum.splits)


lemma collect_map_mono:
  "collect (map g cs) = Inr subs \<Longrightarrow> (\<And>c y. c \<in> set cs \<Longrightarrow> g c = Inr y \<Longrightarrow> g' c = Inr y)
   \<Longrightarrow> collect (map g' cs) = Inr subs"
proof (induction cs arbitrary: subs)
  case Nil
  then show ?case by simp
next
  case (Cons c cs)
  from Cons.prems(1) have "collect (g c # map g cs) = Inr subs" by simp
  from collect_Cons [OF this] obtain y ys where
    y: "g c = Inr y" and ys: "collect (map g cs) = Inr ys" and s: "subs = y # ys"
    by blast
  from Cons.prems(2) [of c y] y have "g' c = Inr y" by simp
  moreover from Cons.IH [OF ys] Cons.prems(2) have "collect (map g' cs) = Inr ys" by simp
  ultimately show ?case by (simp add: s)
qed

text \<open>
  A result does not depend on the bound of the recursion depth.
\<close>

theorem pair_states_recursive_fuel:
  "pair_states_recursive n lr sts doc = Inr res \<Longrightarrow>
   pair_states_recursive (Suc n) lr sts doc = Inr res"
proof (induction n arbitrary: doc res)
  case 0
  then show ?case by simp
next
  case (Suc n)
  show ?case
  proof (cases "folderish doc")
    case False
    with Suc.prems show ?thesis by simp
  next
    case True
    with Suc.prems obtain f where f: "children_filter doc = Inr f"
      by (auto split: sum.splits)
    with True Suc.prems obtain subs where
      subs: "collect (map (pair_states_recursive n lr sts) (query_children lr f sts)) = Inr subs"
      and res: "res = (doc, summarize (pair_state doc) (concat subs)) # concat subs"
      by (auto simp: Let_def split: sum.splits)
    from collect_map_mono [OF subs, of "pair_states_recursive (Suc n) lr sts"] Suc.IH
    have "collect (map (pair_states_recursive (Suc n) lr sts) (query_children lr f sts)) = Inr subs"
      by blast
    with True f res show ?thesis
      by (simp add: Let_def del: pair_states_recursive.simps(2)
            add: pair_states_recursive.simps(2) [of "Suc n"])
  qed
qed



text \<open>
  The summary reads the first entry of the results only: the folder \<open>/f\<close> is reported as
  synchronized although its second child is locally modified.
\<close>

theorem summarize_reads_first_entry:
  "summarize own ((d, s) # rest) = summarize own [(d, s)]"
  by simp

lemma pair_states_recursive_later_descendant_ignored:
  "pair_states_recursive 2 ''/u/alice/nd/ws'' ex_tree ex_folder_f
     = Inr [(ex_folder_f, ''synchronized''), (ex_file_fa, ''synchronized''),
            (ex_file_fb, ''locally_modified'')]"
  by code_simp

section \<open>Properties of the root alignment\<close>

lemma dict_by_Some: "dict_by key rs k = Some r \<Longrightarrow> r \<in> set rs \<and> key r = k"
proof -
  assume "dict_by key rs k = Some r"
  then have "(k, r) \<in> set (rev (map (\<lambda>r. (key r, r)) rs))"
    unfolding dict_by_def by (rule map_of_SomeD)
  then show ?thesis by auto
qed

lemma dict_by_distinct:
  assumes "distinct (map key rs)" and "r \<in> set rs"
  shows "dict_by key rs (key r) = Some r"
proof -
  have "map fst (rev (map (\<lambda>r. (key r, r)) rs)) = rev (map key rs)"
    by (simp add: rev_map comp_def)
  with assms(1) have "distinct (map fst (rev (map (\<lambda>r. (key r, r)) rs)))" by simp
  moreover from assms(2) have "(key r, r) \<in> set (rev (map (\<lambda>r. (key r, r)) rs))" by auto
  ultimately show ?thesis unfolding dict_by_def by (rule map_of_is_SomeI)
qed

lemma one_filter_unique:
  "distinct (map local_root rs) \<Longrightarrow> r \<in> set rs \<Longrightarrow>
   filter (\<lambda>rb. local_root rb = local_root r) rs = [r]"
proof (induction rs)
  case Nil
  then show ?case by simp
next
  case (Cons x xs)
  show ?case
  proof (cases "x = r")
    case True
    with Cons.prems(1) have "local_root r \<notin> local_root ` set xs" by simp
    then have "\<forall>y \<in> set xs. local_root y \<noteq> local_root r" by (metis imageI)
    then have "filter (\<lambda>rb. local_root rb = local_root r) xs = []"
      by (simp add: filter_empty_conv)
    with True show ?thesis by simp
  next
    case False
    with Cons.prems have rin: "r \<in> set xs" and "local_root x \<notin> local_root ` set xs" by auto
    then have "local_root x \<noteq> local_root r" by auto
    with Cons.IH Cons.prems(1) rin show ?thesis by simp
  qed
qed

lemma unbind_each_roots:
  "unbind_each by_id refs st = (None, st') \<Longrightarrow>
   roots st' = filter (\<lambda>rb. \<forall>ref \<in> set refs. \<forall>b. by_id ref = Some b
                          \<longrightarrow> local_root rb \<noteq> local_root b) (roots st)"
proof (induction refs arbitrary: st)
  case Nil
  then show ?case by simp
next
  case (Cons ref refs)
  from Cons.prems obtain b where b: "by_id ref = Some b"
    and rest: "unbind_each by_id refs (local_unbind_root b st) = (None, st')"
    by (auto split: option.splits)
  from Cons.IH [OF rest]
  have "roots st' = filter (\<lambda>rb. \<forall>ref \<in> set refs. \<forall>b. by_id ref = Some b
                          \<longrightarrow> local_root rb \<noteq> local_root b)
                     (filter (\<lambda>rb. local_root rb \<noteq> local_root b) (roots st))"
    by (simp add: local_unbind_root_def delete_root_binding_def)
  also have "\<dots> = filter (\<lambda>rb. \<forall>r \<in> set (ref # refs). \<forall>b. by_id r = Some b
                          \<longrightarrow> local_root rb \<noteq> local_root b) (roots st)"
    using b by (auto intro: filter_cong)
  finally show ?case .
qed

lemma local_bind_root_success:
  assumes "local_bind_root env sb ri repo st = (None, st')"
  shows "makedirs env (local_root_for env sb ri) = None
       \<and> local_info env (local_root_for env sb ri) = None
       \<and> ((st' = st \<and> (\<exists>r. filter (\<lambda>rb. local_root rb = local_root_for env sb ri) (roots st) = [r]
                          \<and> remote_repo r = repo \<and> remote_root r = uid ri))
          \<or> (roots st' = roots st @ [new_root_binding sb (local_root_for env sb ri) repo (uid ri)]
              \<and> filter (\<lambda>rb. local_root rb = local_root_for env sb ri) (roots st) = []))"
proof -
  let ?lr = "local_root_for env sb ri"
  from assms have m: "makedirs env ?lr = None"
    by (auto simp: local_bind_root_def Let_def split: option.splits)
  from assms m have l: "local_info env ?lr = None"
    by (auto simp: local_bind_root_def Let_def split: option.splits)
  show ?thesis
  proof (cases "filter (\<lambda>rb. local_root rb = ?lr) (roots st)")
    case Nil
    with assms m l have "roots st' = roots st @ [new_root_binding sb ?lr repo (uid ri)]"
      by (auto simp: local_bind_root_def Let_def split: sum.splits)
    with Nil m l show ?thesis by simp
  next
    case (Cons r rs)
    show ?thesis
    proof (cases rs)
      case Nil
      with Cons assms m l have "st' = st \<and> remote_repo r = repo \<and> remote_root r = uid ri"
        by (auto simp: local_bind_root_def Let_def split: if_splits)
      with Cons Nil m l show ?thesis by simp
    next
      case (Cons q qs)
      with \<open>filter (\<lambda>rb. local_root rb = ?lr) (roots st) = r # rs\<close> assms m l
      show ?thesis by (simp add: local_bind_root_def Let_def)
    qed
  qed
qed

lemma local_bind_root_existing:
  assumes "makedirs env (local_root_for env sb ri) = None"
    and "local_info env (local_root_for env sb ri) = None"
    and "filter (\<lambda>rb. local_root rb = local_root_for env sb ri) (roots st) = [r]"
    and "remote_repo r = repo" and "remote_root r = uid ri"
  shows "local_bind_root env sb ri repo st = (None, st)"
  using assms by (simp add: local_bind_root_def Let_def)

lemma local_bind_root_roots:
  assumes "local_bind_root env sb ri repo st = (None, st')"
  shows "\<exists>new. roots st' = roots st @ new
           \<and> (new = [] \<or> new = [new_root_binding sb (local_root_for env sb ri) repo (uid ri)])"
    and "\<exists>r \<in> set (roots st'). local_root r = local_root_for env sb ri
           \<and> remote_repo r = repo \<and> remote_root r = uid ri"
    and "distinct (map local_root (roots st)) \<Longrightarrow> distinct (map local_root (roots st'))"
proof -
  let ?lr = "local_root_for env sb ri"
  from local_bind_root_success [OF assms]
  consider (old) r where "st' = st" "filter (\<lambda>rb. local_root rb = ?lr) (roots st) = [r]"
      "remote_repo r = repo" "remote_root r = uid ri"
    | (new) "roots st' = roots st @ [new_root_binding sb ?lr repo (uid ri)]"
      "filter (\<lambda>rb. local_root rb = ?lr) (roots st) = []"
    by blast
  then have "(\<exists>new. roots st' = roots st @ new
           \<and> (new = [] \<or> new = [new_root_binding sb ?lr repo (uid ri)]))
     \<and> (\<exists>r \<in> set (roots st'). local_root r = ?lr \<and> remote_repo r = repo \<and> remote_root r = uid ri)
     \<and> (distinct (map local_root (roots st)) \<longrightarrow> distinct (map local_root (roots st')))"
  proof cases
    case old
    from old(2) have "r \<in> set (filter (\<lambda>rb. local_root rb = ?lr) (roots st))" by simp
    then have "r \<in> set (roots st)" and "local_root r = ?lr" by simp_all
    with old show ?thesis by auto
  next
    case new
    from new(2) have "\<forall>x \<in> set (roots st). local_root x \<noteq> ?lr"
      by (simp add: filter_empty_conv)
    then have "?lr \<notin> local_root ` set (roots st)" by auto
    with new(1) show ?thesis by (simp add: new_root_binding_def)
  qed
  then show "\<exists>new. roots st' = roots st @ new
           \<and> (new = [] \<or> new = [new_root_binding sb ?lr repo (uid ri)])"
    and "\<exists>r \<in> set (roots st'). local_root r = ?lr \<and> remote_repo r = repo \<and> remote_root r = uid ri"
    and "distinct (map local_root (roots st)) \<Longrightarrow> distinct (map local_root (roots st'))"
    by blast+
qed

lemma bind_each_roots:
  "bind_each env sb by_id repo refs st = (None, st') \<Longrightarrow>
   \<exists>new. roots st' = roots st @ new
     \<and> (\<forall>r \<in> set new. \<exists>ref \<in> set refs. \<exists>ri. by_id ref = Some ri
            \<and> r = new_root_binding sb (local_root_for env sb ri) repo (uid ri))"
proof (induction refs arbitrary: st)
  case Nil
  then show ?case by simp
next
  case (Cons ref refs)
  from Cons.prems obtain ri st1 where ri: "by_id ref = Some ri"
    and one: "local_bind_root env sb ri repo st = (None, st1)"
    and rest: "bind_each env sb by_id repo refs st1 = (None, st')"
    by (auto split: option.splits prod.splits)
  from local_bind_root_roots(1) [OF one] obtain new1 where
    n1: "roots st1 = roots st @ new1"
    and k1: "new1 = [] \<or> new1 = [new_root_binding sb (local_root_for env sb ri) repo (uid ri)]"
    by blast
  from Cons.IH [OF rest] obtain new2 where
    n2: "roots st' = roots st1 @ new2"
    and k2: "\<forall>r \<in> set new2. \<exists>ref \<in> set refs. \<exists>ri. by_id ref = Some ri
            \<and> r = new_root_binding sb (local_root_for env sb ri) repo (uid ri)"
    by blast
  have "roots st' = roots st @ (new1 @ new2)" by (simp add: n1 n2)
  moreover have "\<forall>r \<in> set (new1 @ new2). \<exists>ref' \<in> set (ref # refs). \<exists>ri. by_id ref' = Some ri
            \<and> r = new_root_binding sb (local_root_for env sb ri) repo (uid ri)"
    using k1 k2 ri by auto
  ultimately show ?case by blast
qed

lemma bind_each_bound:
  "bind_each env sb by_id repo refs st = (None, st') \<Longrightarrow> ref \<in> set refs \<Longrightarrow>
   \<exists>ri. by_id ref = Some ri
     \<and> makedirs env (local_root_for env sb ri) = None
     \<and> local_info env (local_root_for env sb ri) = None
     \<and> (\<exists>r \<in> set (roots st'). local_root r = local_root_for env sb ri
            \<and> remote_repo r = repo \<and> remote_root r = uid ri)"
proof (induction refs arbitrary: st)
  case Nil
  then show ?case by simp
next
  case (Cons x refs)
  from Cons.prems(1) obtain ri st1 where ri: "by_id x = Some ri"
    and one: "local_bind_root env sb ri repo st = (None, st1)"
    and rest: "bind_each env sb by_id repo refs st1 = (None, st')"
    by (auto split: option.splits prod.splits)
  show ?case
  proof (cases "ref \<in> set refs")
    case True
    from Cons.IH [OF rest True] show ?thesis .
  next
    case False
    with Cons.prems(2) have x: "x = ref" by simp
    from local_bind_root_roots(2) [OF one] obtain r where
      r: "r \<in> set (roots st1)" "local_root r = local_root_for env sb ri"
         "remote_repo r = repo" "remote_root r = uid ri"
      by blast
    from bind_each_roots [OF rest] r(1) have "r \<in> set (roots st')" by auto
    with r ri x local_bind_root_success [OF one] show ?thesis by blast
  qed
qed

lemma bind_each_distinct:
  "bind_each env sb by_id repo refs st = (None, st') \<Longrightarrow>
   distinct (map local_root (roots st)) \<Longrightarrow> distinct (map local_root (roots st'))"
proof (induction refs arbitrary: st)
  case Nil
  then show ?case by simp
next
  case (Cons x refs)
  from Cons.prems(1) obtain ri st1 where
    one: "local_bind_root env sb ri repo st = (None, st1)"
    and rest: "bind_each env sb by_id repo refs st1 = (None, st')"
    by (auto split: option.splits prod.splits)
  from local_bind_root_roots(3) [OF one Cons.prems(2)] Cons.IH [OF rest]
  show ?case by simp
qed

lemma bind_each_noop:
  "(\<And>ref. ref \<in> set refs \<Longrightarrow> \<exists>ri. by_id ref = Some ri
        \<and> local_bind_root env sb ri repo st = (None, st))
   \<Longrightarrow> bind_each env sb by_id repo refs st = (None, st)"
proof (induction refs)
  case Nil
  then show ?case by simp
next
  case (Cons x refs)
  from Cons.prems [of x] obtain ri where "by_id x = Some ri"
    and "local_bind_root env sb ri repo st = (None, st)"
    by auto
  moreover from Cons.IH Cons.prems have "bind_each env sb by_id repo refs st = (None, st)"
    by simp
  ultimately show ?case by simp
qed

lemma set_iter_empty:
  assumes "\<And>xs. set (set_iter env xs) = set xs"
  shows "set_iter env [] = []"
  using assms [of "[]"] by simp

lemma update_server_roots_steps:
  assumes "update_server_roots env sb st locals remotes repo = (None, st')"
  shows "\<exists>st1.
      unbind_each (dict_by remote_root locals)
        (set_iter env (filter (\<lambda>ref. ref \<notin> set (remdups (map uid remotes)))
                         (remdups (map remote_root locals)))) st = (None, st1)
    \<and> bind_each env sb (dict_by uid remotes) repo
        (set_iter env (filter (\<lambda>ref. ref \<notin> set (remdups (map remote_root locals)))
                         (remdups (map uid remotes)))) st1 = (None, st')"
  using assms by (auto simp: update_server_roots_def Let_def split: prod.splits option.splits)

text \<open>
  Claim C2, as amended.  Let the iteration over a set visit its elements, the local
  roots be root bindings of the store with pairwise distinct remote uids, and no two root
  bindings of the store share a \<^verbatim>\<open>local_root\<close>.  When \<^verbatim>\<open>update_server_roots\<close> returns
  normally, the local roots whose uid the server does not advertise are gone from the
  store; every other root binding of the store is still there; each advertised uid that
  no local root has is the uid of a root binding of the repository; each root binding of
  the store is an old one or a new one of such a uid.  When the local and the remote
  uids are the same sets the store is unchanged, and aligning again the roots that the
  store tracks afterwards changes nothing.
\<close>

theorem update_server_roots_alignment:
  assumes it: "\<And>xs. set (set_iter env xs) = set xs"
    and ok: "update_server_roots env sb st locals remotes repo = (None, st')"
    and pk: "distinct (map local_root (roots st))"
    and lo: "set locals \<subseteq> set (roots st)"
    and du: "distinct (map remote_root locals)"
  shows "(\<forall>r \<in> set locals. remote_root r \<notin> uid ` set remotes \<longrightarrow> r \<notin> set (roots st'))
     \<and> (\<forall>r \<in> set (roots st). (r \<in> set locals \<longrightarrow> remote_root r \<in> uid ` set remotes)
            \<longrightarrow> r \<in> set (roots st'))
     \<and> (\<forall>u \<in> uid ` set remotes - remote_root ` set locals.
            \<exists>r \<in> set (roots st'). remote_root r = u \<and> remote_repo r = repo)
     \<and> (\<forall>r \<in> set (roots st'). r \<in> set (roots st)
            \<or> (remote_root r \<in> uid ` set remotes - remote_root ` set locals
                \<and> remote_repo r = repo \<and> rb_local_folder r = sb_local_folder sb))
     \<and> (remote_root ` set locals = uid ` set remotes \<longrightarrow> st' = st)
     \<and> (locals = tracked_roots sb repo st \<longrightarrow> align env sb repo remotes st' = (None, st'))"
proof -
  let ?L = "remote_root ` set locals" and ?R = "uid ` set remotes"
  let ?lby = "dict_by remote_root locals" and ?rby = "dict_by uid remotes"
  let ?rem = "set_iter env (filter (\<lambda>ref. ref \<notin> set (remdups (map uid remotes)))
                         (remdups (map remote_root locals)))"
  let ?add = "set_iter env (filter (\<lambda>ref. ref \<notin> set (remdups (map remote_root locals)))
                         (remdups (map uid remotes)))"
  from update_server_roots_steps [OF ok] obtain st1 where
    un: "unbind_each ?lby ?rem st = (None, st1)"
    and bi: "bind_each env sb ?rby repo ?add st1 = (None, st')"
    by blast
  have srem: "set ?rem = ?L - ?R" by (auto simp: it)
  have sadd: "set ?add = ?R - ?L" by (auto simp: it)
  note r1 = unbind_each_roots [OF un]
  from bind_each_roots [OF bi] obtain new where
    r2: "roots st' = roots st1 @ new"
    and nw: "\<forall>r \<in> set new. \<exists>ref \<in> set ?add. \<exists>ri. ?rby ref = Some ri
            \<and> r = new_root_binding sb (local_root_for env sb ri) repo (uid ri)"
    by blast
  have new_props: "\<And>r. r \<in> set new \<Longrightarrow> remote_root r \<in> ?R - ?L \<and> remote_repo r = repo
      \<and> rb_local_folder r = sb_local_folder sb"
  proof -
    fix r assume "r \<in> set new"
    with nw obtain ref ri where ref: "ref \<in> set ?add" and ri: "?rby ref = Some ri"
      and r: "r = new_root_binding sb (local_root_for env sb ri) repo (uid ri)"
      by blast
    from dict_by_Some [OF ri] have "uid ri = ref" by simp
    with ref sadd r show "remote_root r \<in> ?R - ?L \<and> remote_repo r = repo
      \<and> rb_local_folder r = sb_local_folder sb"
      by (simp add: new_root_binding_def)
  qed
  have sub1: "set (roots st1) \<subseteq> set (roots st)" by (auto simp: r1)
  have a: "\<forall>r \<in> set locals. remote_root r \<notin> ?R \<longrightarrow> r \<notin> set (roots st')"
  proof (intro ballI impI)
    fix r assume rl: "r \<in> set locals" and nr: "remote_root r \<notin> ?R"
    from dict_by_distinct [OF du rl] have d: "?lby (remote_root r) = Some r" .
    from rl nr srem have "remote_root r \<in> set ?rem" by simp
    with d have "r \<notin> set (roots st1)" by (auto simp: r1)
    moreover have "r \<notin> set new"
    proof
      assume "r \<in> set new"
      from new_props [OF this] rl show False by auto
    qed
    ultimately show "r \<notin> set (roots st')" by (simp add: r2)
  qed
  have b: "\<forall>r \<in> set (roots st). (r \<in> set locals \<longrightarrow> remote_root r \<in> ?R) \<longrightarrow> r \<in> set (roots st')"
  proof (intro ballI impI)
    fix r assume rs: "r \<in> set (roots st)" and h: "r \<in> set locals \<longrightarrow> remote_root r \<in> ?R"
    have "\<forall>ref \<in> set ?rem. \<forall>b. ?lby ref = Some b \<longrightarrow> local_root r \<noteq> local_root b"
    proof (intro ballI allI impI)
      fix ref b assume ref: "ref \<in> set ?rem" and bb: "?lby ref = Some b"
      from dict_by_Some [OF bb] have bl: "b \<in> set locals" and bu: "remote_root b = ref" by simp_all
      show "local_root r \<noteq> local_root b"
      proof
        assume eq: "local_root r = local_root b"
        from bl lo have "b \<in> set (roots st)" by blast
        from one_filter_unique [OF pk this] one_filter_unique [OF pk rs] eq
        have "r = b" by simp
        with h bl bu have "ref \<in> ?R" by blast
        with ref srem show False by simp
      qed
    qed
    with rs have "r \<in> set (roots st1)" by (simp add: r1)
    then show "r \<in> set (roots st')" by (simp add: r2)
  qed
  have c_full: "\<And>u. u \<in> ?R - ?L \<Longrightarrow> \<exists>ri. ?rby u = Some ri \<and> uid ri = u
      \<and> makedirs env (local_root_for env sb ri) = None
      \<and> local_info env (local_root_for env sb ri) = None
      \<and> (\<exists>r \<in> set (roots st'). local_root r = local_root_for env sb ri
            \<and> remote_repo r = repo \<and> remote_root r = u)"
  proof -
    fix u assume "u \<in> ?R - ?L"
    with sadd have "u \<in> set ?add" by simp
    from bind_each_bound [OF bi this] obtain ri where ri: "?rby u = Some ri"
      and m: "makedirs env (local_root_for env sb ri) = None"
      and l: "local_info env (local_root_for env sb ri) = None"
      and ex: "\<exists>r \<in> set (roots st'). local_root r = local_root_for env sb ri
            \<and> remote_repo r = repo \<and> remote_root r = uid ri"
      by blast
    from dict_by_Some [OF ri] have "uid ri = u" by simp
    with ri m l ex show "\<exists>ri. ?rby u = Some ri \<and> uid ri = u
      \<and> makedirs env (local_root_for env sb ri) = None
      \<and> local_info env (local_root_for env sb ri) = None
      \<and> (\<exists>r \<in> set (roots st'). local_root r = local_root_for env sb ri
            \<and> remote_repo r = repo \<and> remote_root r = u)"
      by blast
  qed
  have c: "\<forall>u \<in> ?R - ?L. \<exists>r \<in> set (roots st'). remote_root r = u \<and> remote_repo r = repo"
    using c_full by blast
  have d: "\<forall>r \<in> set (roots st'). r \<in> set (roots st)
            \<or> (remote_root r \<in> ?R - ?L \<and> remote_repo r = repo
                \<and> rb_local_folder r = sb_local_folder sb)"
  proof
    fix r assume "r \<in> set (roots st')"
    then have "r \<in> set (roots st1) \<or> r \<in> set new" by (simp add: r2)
    with sub1 new_props show "r \<in> set (roots st)
            \<or> (remote_root r \<in> ?R - ?L \<and> remote_repo r = repo
                \<and> rb_local_folder r = sb_local_folder sb)"
      by blast
  qed
  have e: "?L = ?R \<longrightarrow> st' = st"
  proof
    assume eq: "?L = ?R"
    with srem sadd have "?rem = []" and "?add = []" by simp_all
    with un bi show "st' = st" by simp
  qed
  have f: "locals = tracked_roots sb repo st \<longrightarrow> align env sb repo remotes st' = (None, st')"
  proof
    assume tr: "locals = tracked_roots sb repo st"
    let ?locals' = "tracked_roots sb repo st'"
    let ?L' = "remote_root ` set ?locals'"
    let ?rem' = "set_iter env (filter (\<lambda>ref. ref \<notin> set (remdups (map uid remotes)))
                         (remdups (map remote_root ?locals')))"
    let ?add' = "set_iter env (filter (\<lambda>ref. ref \<notin> set (remdups (map remote_root ?locals')))
                         (remdups (map uid remotes)))"
    have sub: "?L' \<subseteq> ?R"
    proof
      fix u assume "u \<in> ?L'"
      then obtain r where r: "r \<in> set (roots st')" and t: "rb_local_folder r = sb_local_folder sb"
        "remote_repo r = repo" and u: "remote_root r = u"
        by (auto simp: tracked_roots_def)
      from d r have "r \<in> set (roots st) \<or> remote_root r \<in> ?R - ?L" by blast
      then show "u \<in> ?R"
      proof
        assume rs: "r \<in> set (roots st)"
        with t tr have rl: "r \<in> set locals" by (simp add: tracked_roots_def)
        show ?thesis
        proof (rule ccontr)
          assume "u \<notin> ?R"
          with a rl u have "r \<notin> set (roots st')" by blast
          with r show False by simp
        qed
      next
        assume "remote_root r \<in> ?R - ?L"
        with u show ?thesis by simp
      qed
    qed
    have sr: "set ?rem' = ?L' - ?R" by (auto simp: it)
    from sub have "?L' - ?R = {}" by (simp only: Diff_eq_empty_iff)
    with sr have "set ?rem' = {}" by (rule trans)
    then have rem': "?rem' = []" by (simp only: set_empty)
    have keepL: "?L \<inter> ?R \<subseteq> ?L'"
    proof
      fix u assume "u \<in> ?L \<inter> ?R"
      then obtain r where rl: "r \<in> set locals" and u: "remote_root r = u" and ur: "u \<in> ?R" by auto
      from rl lo have "r \<in> set (roots st)" by blast
      with b rl u ur have "r \<in> set (roots st')" by blast
      moreover from rl tr have "rb_local_folder r = sb_local_folder sb \<and> remote_repo r = repo"
        by (simp add: tracked_roots_def)
      ultimately have "r \<in> set ?locals'" by (simp add: tracked_roots_def)
      with u show "u \<in> ?L'" by blast
    qed
    have sadd': "set ?add' = ?R - ?L'" by (auto simp: it)
    have pk1: "distinct (map local_root (roots st1))"
      using pk by (simp add: r1 distinct_map_filter)
    have pk': "distinct (map local_root (roots st'))"
      by (rule bind_each_distinct [OF bi pk1])
    have noop: "bind_each env sb ?rby repo ?add' st' = (None, st')"
    proof (rule bind_each_noop)
      fix ref assume "ref \<in> set ?add'"
      with sadd' have "ref \<in> ?R" and "ref \<notin> ?L'" by simp_all
      with keepL have "ref \<in> ?R - ?L" by blast
      from c_full [OF this] obtain ri r where ri: "?rby ref = Some ri"
        and m: "makedirs env (local_root_for env sb ri) = None"
        and l: "local_info env (local_root_for env sb ri) = None"
        and r: "r \<in> set (roots st')" "local_root r = local_root_for env sb ri"
               "remote_repo r = repo" "remote_root r = ref"
        and ur: "uid ri = ref"
        by blast
      from one_filter_unique [OF pk' r(1)] r(2)
      have "filter (\<lambda>rb. local_root rb = local_root_for env sb ri) (roots st') = [r]" by simp
      from local_bind_root_existing [OF m l this r(3)] r(4) ur
      have "local_bind_root env sb ri repo st' = (None, st')" by simp
      with ri show "\<exists>ri. ?rby ref = Some ri \<and> local_bind_root env sb ri repo st' = (None, st')"
        by blast
    qed
    show "align env sb repo remotes st' = (None, st')"
      unfolding align_def update_server_roots_def Let_def
      using rem' noop by simp
  qed
  from a b c d e f show ?thesis by blast
qed

text \<open>
  Claim C2 as stated fails.  Two tracked roots have the same remote uid and the server
  advertises no root: the alignment unbinds one of them, and a second alignment unbinds
  the other.
\<close>

theorem update_server_roots_shared_uid_counterexample:
  "tracked_roots ex_server_alice ''default'' ex_store_twice
     = [ex_root ''A'' ''uid-a'', ex_root ''A2'' ''uid-a'']
   \<and> update_server_roots ex_env ex_server_alice ex_store_twice
        [ex_root ''A'' ''uid-a'', ex_root ''A2'' ''uid-a''] [] ''default''
     = (None, ex_store_once)
   \<and> roots ex_store_once = [ex_root ''A'' ''uid-a'']
   \<and> tracked_roots ex_server_alice ''default'' ex_store_once = [ex_root ''A'' ''uid-a'']
   \<and> update_server_roots ex_env ex_server_alice ex_store_once
        [ex_root ''A'' ''uid-a''] [] ''default''
     = (None, ex_store_none)
   \<and> ex_store_none \<noteq> ex_store_once"
  by code_simp

theorem update_server_roots_alignment_witness:
  "align ex_env ex_server_alice ''default'' ex_remotes_bc ex_store_ab = (None, ex_store_bc)
   \<and> ex_root ''A'' ''uid-a'' \<notin> set (roots ex_store_bc)
   \<and> ex_root ''B'' ''uid-b'' \<in> set (roots ex_store_bc)
   \<and> map remote_root (roots ex_store_bc) = [''uid-b'', ''uid-c'']
   \<and> map lks_local_root (states ex_store_bc) = [''/u/alice/nd/B'', ''/u/alice/nd/C'']
   \<and> align ex_env ex_server_alice ''default'' ex_remotes_bc ex_store_bc = (None, ex_store_bc)"
proof -
  have tr: "tracked_roots ex_server_alice ''default'' ex_store_ab
      = [ex_root ''A'' ''uid-a'', ex_root ''B'' ''uid-b'']"
    by code_simp
  have it: "\<And>xs. set (set_iter ex_env xs) = set xs" by (simp add: ex_env_def)
  have ok: "update_server_roots ex_env ex_server_alice ex_store_ab
      (tracked_roots ex_server_alice ''default'' ex_store_ab) ex_remotes_bc ''default''
      = (None, ex_store_bc)"
    by code_simp
  have pk: "distinct (map local_root (roots ex_store_ab))" by code_simp
  have lo: "set (tracked_roots ex_server_alice ''default'' ex_store_ab) \<subseteq> set (roots ex_store_ab)"
    by (simp add: tracked_roots_def)
  have du: "distinct (map remote_root (tracked_roots ex_server_alice ''default'' ex_store_ab))"
    by code_simp
  note t = update_server_roots_alignment [OF it ok pk lo du]
  have na: "remote_root (ex_root ''A'' ''uid-a'') \<notin> uid ` set ex_remotes_bc"
    by (simp add: ex_root_def ex_remotes_bc_def ex_remote_def)
  have ia: "ex_root ''A'' ''uid-a'' \<in> set (tracked_roots ex_server_alice ''default'' ex_store_ab)"
    by (simp add: tr)
  from t na ia have 1: "ex_root ''A'' ''uid-a'' \<notin> set (roots ex_store_bc)" by blast
  have ib: "ex_root ''B'' ''uid-b'' \<in> set (roots ex_store_ab)"
    by (simp add: ex_store_ab_def)
  have rb: "remote_root (ex_root ''B'' ''uid-b'') \<in> uid ` set ex_remotes_bc"
    by (simp add: ex_root_def ex_remotes_bc_def ex_remote_def)
  from t ib rb have 2: "ex_root ''B'' ''uid-b'' \<in> set (roots ex_store_bc)" by blast
  from t have 3: "align ex_env ex_server_alice ''default'' ex_remotes_bc ex_store_bc
      = (None, ex_store_bc)"
    by blast
  have 4: "map remote_root (roots ex_store_bc) = [''uid-b'', ''uid-c'']"
    by (simp add: ex_store_bc_def ex_root_def)
  have 5: "map lks_local_root (states ex_store_bc) = [''/u/alice/nd/B'', ''/u/alice/nd/C'']"
    by (simp add: ex_store_bc_def ex_state_under_def ex_new_state_def update_state_def)
  from ok have 0: "align ex_env ex_server_alice ''default'' ex_remotes_bc ex_store_ab
      = (None, ex_store_bc)"
    by (simp add: align_def)
  from 0 1 2 3 4 5 show ?thesis by simp
qed

end
